theory Spec2Isabelle
  imports Main
begin

section \<open>The linter of src/linter.ts\<close>

text \<open>
  A shallow embedding of the class \<open>Linter\<close>: the methods \<open>lint\<close>, \<open>getResult\<close>,
  \<open>getAllFailures\<close>, \<open>applyAllFixes\<close>, \<open>applyFixes\<close>, \<open>applyRule\<close>,
  \<open>getEnabledRules\<close>, \<open>getSourceFile\<close> and the module function \<open>createMultiMap\<close>.
  Exceptions are values of type \<open>error\<close>; every method that mutates the linter, the
  file system or the console takes the state and returns it updated, also when it
  throws, because a mutation made before a throw stays made.
\<close>

subsection \<open>Data\<close>

text \<open>The string union \<open>"warning" | "error" | "off"\<close>.\<close>

datatype RuleSeverity = severity_warning | severity_error | severity_off

text \<open>
  Modelled from the spec: the declaration of \<open>Replacement\<close> is not in src. The spec gives
  it a start offset, an end offset and a replacement text; a Fix is a collection of
  Replacements.
\<close>

record Replacement =
  replStart :: nat
  replEnd :: nat
  replText :: string

type_synonym Fix = "Replacement list"

text \<open>
  Modelled from the spec: the declaration of \<open>RuleFailure\<close> is not in src. The fields are
  the spec's attributes of a Failure, named after the getters that linter.ts calls.
  \<open>getFix\<close> is \<open>None\<close> where the getter returns \<open>undefined\<close>.
\<close>

record RuleFailure =
  getRuleName :: string
  getFileName :: string
  getStartPosition :: nat
  getEndPosition :: nat
  getFailure :: string
  getRuleSeverity :: RuleSeverity
  getFix :: "Fix option"

definition hasFix :: "RuleFailure \<Rightarrow> bool" where
  "hasFix f = (getFix f \<noteq> None)"

definition setRuleSeverity :: "RuleSeverity \<Rightarrow> RuleFailure \<Rightarrow> RuleFailure" where
  "setRuleSeverity severity f = f\<lparr>getRuleSeverity := severity\<rparr>"

text \<open>
  Modelled from the spec: a \<open>ts.SourceFile\<close> is the parsed view of one file's text at one
  point in time. The rules are arbitrary functions of it, so the name and the text are
  all the model keeps.
\<close>

record SourceFile =
  fileName :: string
  sourceText :: string

text \<open>\<open>ts.Program\<close>, as far as linter.ts uses it: \<open>program.getSourceFile(fileName)\<close>.\<close>

type_synonym Program = "string \<Rightarrow> SourceFile option"

text \<open>
  The exceptions that leave \<open>lint\<close> and \<open>getResult\<close>: \<open>new Error(message)\<close>,
  \<open>new FatalError(message)\<close>, the error of \<open>fs.readFileSync\<close> on a path that names no
  file, the error of \<open>fs.writeFileSync\<close> on a path that cannot be written (a read-only
  file, a missing directory), and the \<open>TypeError\<close> of a template string whose value has
  no text (a Symbol, an object without a prototype).
\<close>

datatype error = Error string | FatalError string | ENOENT string | EACCES string
  | TypeError string

text \<open>
  What a rule's entry point throws. \<open>ThrownError\<close> is a value for which \<open>isError\<close> holds,
  with what the template string \<open>${error.message}\<close> evaluates to; \<open>ThrownOther\<close> is any
  other value, with what \<open>${error}\<close> evaluates to. A template string evaluates to a text
  (\<open>Inr\<close>), or throws itself (\<open>Inl\<close>) when the value cannot be converted to a string.
\<close>

datatype thrown = ThrownError "error + string" | ThrownOther "error + string"

text \<open>
  \<open>IRule\<close>: \<open>getOptions().ruleName\<close>, \<open>getOptions().ruleSeverity\<close>, \<open>apply\<close> and, for a
  typed rule, \<open>applyWithProgram\<close> (\<open>isTypedRule\<close> holds when it is there).
\<close>

record IRule =
  ruleName :: string
  ruleSeverity :: RuleSeverity
  ruleApply :: "SourceFile \<Rightarrow> thrown + RuleFailure list"
  ruleApplyWithProgram :: "(SourceFile \<Rightarrow> Program \<Rightarrow> thrown + RuleFailure list) option"

text \<open>
  Modelled from the spec: \<open>convertRuleOptions\<close> and \<open>loadRules\<close> are not in src. The spec's
  Configuration holds the enabled rule set, as distinct lists for plain and
  alternate-syntax sources; the model keeps the two lists as the loader returns them.
\<close>

record IConfigurationFile =
  rules :: "IRule list"
  jsRules :: "IRule list"

text \<open>\<open>ILinterOptions\<close>: the fields \<open>fix\<close>, \<open>formatter\<close> and \<open>formattersDirectory\<close>.\<close>

record ILinterOptions =
  optFix :: bool
  optFormatter :: "string option"
  optFormattersDirectory :: "string option"

text \<open>The constructor's private parameters \<open>options\<close> and \<open>program\<close>.\<close>

record Linter =
  options :: ILinterOptions
  program :: "Program option"

text \<open>A formatter instance: its method \<open>format(failures, fixes)\<close>.\<close>

type_synonym IFormatter = "RuleFailure list \<Rightarrow> RuleFailure list \<Rightarrow> string"

text \<open>
  The collaborators that linter.ts imports and that are not in src, as parameters:
  \<^item> \<open>disabled\<close>: whether an inline directive of the source file covers a failure
    (used by \<open>removeDisabledFailures\<close> below);
  \<^item> \<open>replacementApplyFixes\<close>: \<open>Replacement.applyFixes(content, fixes)\<close>; the fixes come
    from \<open>f.getFix()!\<close>, whose \<open>!\<close> checks nothing when the program runs, so an element
    may be \<open>undefined\<close> (\<open>None\<close>);
  \<^item> \<open>pathResolve\<close>: \<open>path.resolve\<close> in the current working directory;
  \<^item> \<open>findFormatter\<close> and \<open>getRelativePath\<close>.
\<close>

record Collaborators =
  disabled :: "SourceFile \<Rightarrow> RuleFailure \<Rightarrow> bool"
  replacementApplyFixes :: "string \<Rightarrow> Fix option list \<Rightarrow> string"
  pathResolve :: "string \<Rightarrow> string"
  findFormatter :: "string \<Rightarrow> string option \<Rightarrow> IFormatter option"
  getRelativePath :: "string option \<Rightarrow> string option"

text \<open>
  The mutable state: the fields \<open>failures\<close> and \<open>fixes\<close> of the linter, the file system
  (the text of each file, by resolved path, and whether a write to a resolved path
  succeeds), the calls of \<open>fs.writeFileSync\<close> that succeeded, in order (path as passed,
  and data), the lines given to \<open>console.warn\<close>, and the set \<open>shownWarnings\<close> of error.ts.
\<close>

record state =
  failures :: "RuleFailure list"
  "fixes" :: "RuleFailure list"
  disk :: "string \<Rightarrow> string option"
  writable :: "string \<Rightarrow> bool"
  writes :: "(string \<times> string) list"
  console :: "string list"
  shownWarnings :: "string set"

subsection \<open>Collaborators modelled from the spec\<close>

text \<open>
  Modelled from the spec: \<open>removeDisabledFailures\<close> (enableDisableRules.ts) is not in src.
  Given a parsed source and a raw failure list it returns the subset not covered by
  inline disable directives.
\<close>

definition removeDisabledFailures ::
  "Collaborators \<Rightarrow> SourceFile \<Rightarrow> RuleFailure list \<Rightarrow> RuleFailure list" where
  "removeDisabledFailures C sourceFile fs = filter (\<lambda>f. \<not> disabled C sourceFile f) fs"

text \<open>
  Modelled from the spec: \<open>showWarningOnce\<close> (error.ts) is not in src. A message is
  reported once per distinct message, deduplicated process-wide.
\<close>

definition showWarningOnce :: "string \<Rightarrow> state \<Rightarrow> state" where
  "showWarningOnce message st =
     (if message \<in> shownWarnings st then st
      else st\<lparr>console := console st @ [message],
              shownWarnings := insert message (shownWarnings st)\<rparr>)"

text \<open>
  Modelled from the spec: \<open>utils.getSourceFile\<close> (language/utils.ts) is not in src; it is
  the parser, \<open>parse(path, text) -> SourceView\<close>.
\<close>

definition utils_getSourceFile :: "string \<Rightarrow> string \<Rightarrow> SourceFile" where
  "utils_getSourceFile name source = \<lparr>fileName = name, sourceText = source\<rparr>"

text \<open>\<open>fs.readFileSync(filePath, "utf-8")\<close> and \<open>fs.writeFileSync(filePath, data, "utf-8")\<close>.\<close>

definition readFileSync :: "Collaborators \<Rightarrow> string \<Rightarrow> state \<Rightarrow> error + string" where
  "readFileSync C filePath st =
     (case disk st (pathResolve C filePath) of
        None \<Rightarrow> Inl (ENOENT filePath)
      | Some content \<Rightarrow> Inr content)"

definition writeFileSync ::
  "Collaborators \<Rightarrow> string \<Rightarrow> string \<Rightarrow> state \<Rightarrow> error + state" where
  "writeFileSync C filePath data st =
     (if writable st (pathResolve C filePath)
      then Inr (st\<lparr>disk := (disk st)(pathResolve C filePath \<mapsto> data),
                   writes := writes st @ [(filePath, data)]\<rparr>)
      else Inl (EACCES filePath))"

subsection \<open>createMultiMap\<close>

text \<open>
  A \<open>Map\<close> iterates in insertion order, so the multi-map is an association list: a key
  that is there gets the value pushed onto its list, a new key goes to the end.
\<close>

fun multiMapAdd :: "'k \<Rightarrow> 'v \<Rightarrow> ('k \<times> 'v list) list \<Rightarrow> ('k \<times> 'v list) list" where
  "multiMapAdd k v [] = [(k, [v])]"
| "multiMapAdd k v ((k', vs) # m) =
     (if k' = k then (k', vs @ [v]) # m else (k', vs) # multiMapAdd k v m)"

definition createMultiMap :: "'t list \<Rightarrow> ('t \<Rightarrow> ('k \<times> 'v) option) \<Rightarrow> ('k \<times> 'v list) list" where
  "createMultiMap inputs getPair =
     foldl (\<lambda>m input. case getPair input of
                         None \<Rightarrow> m
                       | Some (k, v) \<Rightarrow> multiMapAdd k v m) [] inputs"

subsection \<open>The private methods\<close>

text \<open>
  \<open>getSourceFile\<close>: with a program the source file is the program's, whatever \<open>source\<close>
  is, and a file the program does not know is a \<open>FatalError\<close>; without one the text is
  parsed. The message is the template's text without the line breaks that \<open>dedent\<close>
  (not in src) leaves around it.
\<close>

definition INVALID_SOURCE_ERROR :: "string \<Rightarrow> string" where
  "INVALID_SOURCE_ERROR name =
     ''Invalid source file: '' @ name @
     ''. Ensure that the files supplied to lint have a .ts, .tsx, .d.ts, .js or .jsx extension.''"

definition getSourceFile :: "Linter \<Rightarrow> string \<Rightarrow> string \<Rightarrow> error + SourceFile" where
  "getSourceFile L name source =
     (case program L of
        Some p \<Rightarrow>
          (case p name of
             None \<Rightarrow> Inl (FatalError (INVALID_SOURCE_ERROR name))
           | Some sourceFile \<Rightarrow> Inr sourceFile)
      | None \<Rightarrow> Inr (utils_getSourceFile name source))"

definition getEnabledRules :: "IConfigurationFile \<Rightarrow> bool \<Rightarrow> IRule list" where
  "getEnabledRules configuration isJs =
     (if isJs then jsRules configuration else rules configuration)"

text \<open>
  \<open>applyRule\<close>: the body of its \<open>try\<close> is \<open>applyRuleTry\<close>, the typed entry point when
  there is a program and the rule is typed, the plain one otherwise. Whatever the rule
  throws is caught; the \<open>catch\<close> block first evaluates the template string of the
  warning, which can throw, and only then warns and returns the empty list.
\<close>

definition applyRuleTry :: "Linter \<Rightarrow> IRule \<Rightarrow> SourceFile \<Rightarrow> thrown + RuleFailure list" where
  "applyRuleTry L rule sourceFile =
     (case (program L, ruleApplyWithProgram rule) of
        (Some p, Some applyWithProgram) \<Rightarrow> applyWithProgram sourceFile p
      | _ \<Rightarrow> ruleApply rule sourceFile)"

definition applyRule ::
  "Linter \<Rightarrow> IRule \<Rightarrow> SourceFile \<Rightarrow> state \<Rightarrow> (error + RuleFailure list) \<times> state" where
  "applyRule L rule sourceFile st =
     (case applyRuleTry L rule sourceFile of
        Inr fs \<Rightarrow> (Inr fs, st)
      | Inl (ThrownError message) \<Rightarrow>
          (case message of
             Inl e \<Rightarrow> (Inl e, st)
           | Inr text \<Rightarrow> (Inr [], showWarningOnce (''Warning: '' @ text) st))
      | Inl (ThrownOther shown) \<Rightarrow>
          (case shown of
             Inl e \<Rightarrow> (Inl e, st)
           | Inr text \<Rightarrow> (Inr [], st\<lparr>console := console st @ [''Warning: '' @ text]\<rparr>)))"

text \<open>\<open>flatMap(enabledRules, (rule) => this.applyRule(rule, sourceFile))\<close>.\<close>

fun flatMapApplyRule ::
  "Linter \<Rightarrow> IRule list \<Rightarrow> SourceFile \<Rightarrow> state \<Rightarrow> (error + RuleFailure list) \<times> state" where
  "flatMapApplyRule L [] sourceFile st = (Inr [], st)"
| "flatMapApplyRule L (rule # rs) sourceFile st =
     (case applyRule L rule sourceFile st of
        (Inl e, st1) \<Rightarrow> (Inl e, st1)
      | (Inr fs, st1) \<Rightarrow>
          (case flatMapApplyRule L rs sourceFile st1 of
             (Inl e, st2) \<Rightarrow> (Inl e, st2)
           | (Inr gs, st2) \<Rightarrow> (Inr (fs @ gs), st2)))"

definition getAllFailures ::
  "Linter \<Rightarrow> Collaborators \<Rightarrow> SourceFile \<Rightarrow> IRule list \<Rightarrow> state
     \<Rightarrow> (error + RuleFailure list) \<times> state" where
  "getAllFailures L C sourceFile enabledRules st =
     (case flatMapApplyRule L enabledRules sourceFile st of
        (Inl e, st1) \<Rightarrow> (Inl e, st1)
      | (Inr fs, st1) \<Rightarrow> (Inr (removeDisabledFailures C sourceFile fs), st1))"

text \<open>
  \<open>applyFixes\<close>: the callback of \<open>fixesByFile.forEach\<close>, group by group. The group of the
  linted file is merged into \<open>source\<close>; any other group is merged into the text read
  from the disk; either way the result is written at once, and a read or a write that
  throws ends the loop.
\<close>

fun applyFixesForEach ::
  "Collaborators \<Rightarrow> string \<Rightarrow> (string \<times> Fix option list) list \<Rightarrow> string \<Rightarrow> state
     \<Rightarrow> (error + string) \<times> state" where
  "applyFixesForEach C sourceFilePath [] source st = (Inr source, st)"
| "applyFixesForEach C sourceFilePath ((filePath, fileFixes) # rest) source st =
     (if pathResolve C filePath = pathResolve C sourceFilePath then
        (let source1 = replacementApplyFixes C source fileFixes;
             fileNewSource = source1
         in case writeFileSync C filePath fileNewSource st of
              Inl e \<Rightarrow> (Inl e, st)
            | Inr st1 \<Rightarrow> applyFixesForEach C sourceFilePath rest source1 st1)
      else
        (case readFileSync C filePath st of
           Inl e \<Rightarrow> (Inl e, st)
         | Inr oldSource \<Rightarrow>
             (let fileNewSource = replacementApplyFixes C oldSource fileFixes
              in case writeFileSync C filePath fileNewSource st of
                   Inl e \<Rightarrow> (Inl e, st)
                 | Inr st1 \<Rightarrow> applyFixesForEach C sourceFilePath rest source st1)))"

definition fixesByFile :: "RuleFailure list \<Rightarrow> (string \<times> Fix option list) list" where
  "fixesByFile fixableFailures =
     createMultiMap fixableFailures (\<lambda>f. Some (getFileName f, getFix f))"

definition applyFixes ::
  "Collaborators \<Rightarrow> string \<Rightarrow> string \<Rightarrow> RuleFailure list \<Rightarrow> state \<Rightarrow> (error + string) \<times> state" where
  "applyFixes C sourceFilePath source fixableFailures st =
     applyFixesForEach C sourceFilePath (fixesByFile fixableFailures) source st"

text \<open>
  \<open>applyAllFixes\<close>: the loop over the enabled rules carries \<open>sourceFile\<close> and \<open>source\<close>;
  \<open>fileFailures\<close> is the batch from before the fixes and does not change in the loop.
\<close>

fun applyAllFixesLoop ::
  "Linter \<Rightarrow> Collaborators \<Rightarrow> RuleFailure list \<Rightarrow> string \<Rightarrow> IRule list \<Rightarrow> SourceFile \<Rightarrow> string
     \<Rightarrow> state \<Rightarrow> (error + SourceFile \<times> string) \<times> state" where
  "applyAllFixesLoop L C fileFailures sourceFileName [] sourceFile source st =
     (Inr (sourceFile, source), st)"
| "applyAllFixesLoop L C fileFailures sourceFileName (rule # rs) sourceFile source st =
     (let hasFixes = list_ex (\<lambda>f. hasFix f \<and> getRuleName f = ruleName rule) fileFailures
      in if hasFixes then
           (case applyRule L rule sourceFile st of
              (Inl e, st1) \<Rightarrow> (Inl e, st1)
            | (Inr fresh, st1) \<Rightarrow>
                (let updatedFailures = removeDisabledFailures C sourceFile fresh;
                     fixableFailures = filter hasFix updatedFailures;
                     st2 = st1\<lparr>fixes := fixes st1 @ fixableFailures\<rparr>
                 in case applyFixes C sourceFileName source fixableFailures st2 of
                      (Inl e, st3) \<Rightarrow> (Inl e, st3)
                    | (Inr source1, st3) \<Rightarrow>
                        (case getSourceFile L sourceFileName source1 of
                           Inl e \<Rightarrow> (Inl e, st3)
                         | Inr sourceFile1 \<Rightarrow>
                             applyAllFixesLoop L C fileFailures sourceFileName rs
                               sourceFile1 source1 st3)))
         else applyAllFixesLoop L C fileFailures sourceFileName rs sourceFile source st)"

definition applyAllFixes ::
  "Linter \<Rightarrow> Collaborators \<Rightarrow> IRule list \<Rightarrow> RuleFailure list \<Rightarrow> SourceFile \<Rightarrow> string \<Rightarrow> state
     \<Rightarrow> (error + RuleFailure list) \<times> state" where
  "applyAllFixes L C enabledRules fileFailures sourceFile sourceFileName st =
     (case applyAllFixesLoop L C fileFailures sourceFileName enabledRules
             sourceFile (sourceText sourceFile) st of
        (Inl e, st1) \<Rightarrow> (Inl e, st1)
      | (Inr (sourceFile1, source1), st1) \<Rightarrow>
          getAllFailures L C sourceFile1 enabledRules st1)"

subsection \<open>lint\<close>

text \<open>
  \<open>lint(fileName, source, configuration)\<close>. The default \<open>DEFAULT_CONFIG\<close> of the third
  parameter is not in src, so the caller of the model always passes a configuration.
\<close>

text \<open>The test \<open>/\.jsx?$/i.test(fileName)\<close>: the name ends in .js or .jsx, in any case.\<close>

definition lowerJsx :: "char \<Rightarrow> char" where
  "lowerJsx c =
     (if c = CHR ''J'' then CHR ''j''
      else if c = CHR ''S'' then CHR ''s''
      else if c = CHR ''X'' then CHR ''x''
      else c)"

definition endsWith :: "string \<Rightarrow> string \<Rightarrow> bool" where
  "endsWith s ending =
     (length ending \<le> length s \<and> drop (length s - length ending) s = ending)"

definition isJsFileName :: "string \<Rightarrow> bool" where
  "isJsFileName name =
     (let lowered = map lowerJsx name
      in endsWith lowered ''.js'' \<or> endsWith lowered ''.jsx'')"

text \<open>
  \<open>new Map(enabledRules.map(...))\<close>: of two rules with one name the later one's severity
  is the entry.
\<close>

definition ruleSeverityMap :: "IRule list \<Rightarrow> string \<Rightarrow> RuleSeverity option" where
  "ruleSeverityMap enabledRules =
     map_of (rev (map (\<lambda>rule. (ruleName rule, ruleSeverity rule)) enabledRules))"

definition quoted :: "string \<Rightarrow> string" where
  "quoted s = [CHR 0x27] @ s @ [CHR 0x27]"

text \<open>The loop \<open>for (const failure of fileFailures)\<close> that sets the severities.\<close>

fun stampSeverities ::
  "(string \<Rightarrow> RuleSeverity option) \<Rightarrow> RuleFailure list \<Rightarrow> error + RuleFailure list" where
  "stampSeverities m [] = Inr []"
| "stampSeverities m (failure # rest) =
     (case m (getRuleName failure) of
        None \<Rightarrow> Inl (Error (''Severity for rule '' @ quoted (getRuleName failure) @ '' not found''))
      | Some severity \<Rightarrow>
          (case stampSeverities m rest of
             Inl e \<Rightarrow> Inl e
           | Inr stamped \<Rightarrow> Inr (setRuleSeverity severity failure # stamped)))"

definition lint ::
  "Linter \<Rightarrow> Collaborators \<Rightarrow> string \<Rightarrow> string \<Rightarrow> IConfigurationFile \<Rightarrow> state
     \<Rightarrow> (error + unit) \<times> state" where
  "lint L C name source configuration st =
     (case getSourceFile L name source of
        Inl e \<Rightarrow> (Inl e, st)
      | Inr sourceFile \<Rightarrow>
          (let isJs = isJsFileName name;
               enabledRules = getEnabledRules configuration isJs
           in case getAllFailures L C sourceFile enabledRules st of
                (Inl e, st1) \<Rightarrow> (Inl e, st1)
              | (Inr fileFailures, st1) \<Rightarrow>
                  if length fileFailures = 0 then (Inr (), st1)
                  else
                    (case (if optFix (options L) \<and> list_ex hasFix fileFailures
                           then applyAllFixes L C enabledRules fileFailures sourceFile name st1
                           else (Inr fileFailures, st1)) of
                       (Inl e, st2) \<Rightarrow> (Inl e, st2)
                     | (Inr fileFailures1, st2) \<Rightarrow>
                         (case stampSeverities (ruleSeverityMap enabledRules) fileFailures1 of
                            Inl e \<Rightarrow> (Inl e, st2)
                          | Inr stamped \<Rightarrow>
                              (Inr (), st2\<lparr>failures := failures st2 @ stamped\<rparr>)))))"

text \<open>
  The value of the variable \<open>fileFailures\<close> when \<open>lint\<close> reaches the severities (line
  107), or returns early (line 100): the batch of the file, recomputed by
  \<open>applyAllFixes\<close> when fixes were asked for and the first batch has one. It is the
  first half of \<open>lint\<close>, named so that theorems can speak of the final batch.
\<close>

definition lintFileFailures ::
  "Linter \<Rightarrow> Collaborators \<Rightarrow> string \<Rightarrow> string \<Rightarrow> IConfigurationFile \<Rightarrow> state
     \<Rightarrow> (error + RuleFailure list) \<times> state" where
  "lintFileFailures L C name source configuration st =
     (case getSourceFile L name source of
        Inl e \<Rightarrow> (Inl e, st)
      | Inr sourceFile \<Rightarrow>
          (let isJs = isJsFileName name;
               enabledRules = getEnabledRules configuration isJs
           in case getAllFailures L C sourceFile enabledRules st of
                (Inl e, st1) \<Rightarrow> (Inl e, st1)
              | (Inr fileFailures, st1) \<Rightarrow>
                  if length fileFailures = 0 then (Inr fileFailures, st1)
                  else if optFix (options L) \<and> list_ex hasFix fileFailures
                       then applyAllFixes L C enabledRules fileFailures sourceFile name st1
                       else (Inr fileFailures, st1)))"

text \<open>
  For the statements about the writes to the linted file: the texts that merging groups
  of fixes one after the other into a working text gives, each with the name of its
  group. These are the writes that one call of \<open>applyFixes\<close> is to make to the linted
  file when the groups are those of the linted file.
\<close>

fun mergedTexts ::
  "Collaborators \<Rightarrow> string \<Rightarrow> (string \<times> Fix option list) list \<Rightarrow> (string \<times> string) list" where
  "mergedTexts C source [] = []"
| "mergedTexts C source ((filePath, fileFixes) # rest) =
     (filePath, replacementApplyFixes C source fileFixes)
       # mergedTexts C (replacementApplyFixes C source fileFixes) rest"

subsection \<open>getResult\<close>

record LintResult =
  errorCount :: nat
  resultFailures :: "RuleFailure list"
  resultFixes :: "RuleFailure list"
  format :: string
  "output" :: string
  warningCount :: nat

definition getResult :: "Linter \<Rightarrow> Collaborators \<Rightarrow> state \<Rightarrow> error + LintResult" where
  "getResult L C st =
     (let formattersDirectory = getRelativePath C (optFormattersDirectory (options L));
          formatterName = (case optFormatter (options L) of
                             Some given \<Rightarrow> given
                           | None \<Rightarrow> ''prose'')
      in case findFormatter C formatterName formattersDirectory of
           None \<Rightarrow> Inl (Error (''formatter '' @ quoted formatterName @ '' not found''))
         | Some formatter \<Rightarrow>
             (let out = formatter (failures st) (fixes st);
                  errors = length (filter (\<lambda>failure. getRuleSeverity failure = severity_error)
                                     (failures st))
              in Inr \<lparr>errorCount = errors,
                      resultFailures = failures st,
                      resultFixes = fixes st,
                      format = formatterName,
                      output = out,
                      warningCount = length (failures st) - errors\<rparr>))"

subsection \<open>Concrete collaborators, rules and states\<close>

text \<open>
  The theorems below hold for every collaborator. To run the definitions on an input,
  here are concrete ones: a merger that applies the replacements from the last end
  offset to the first, a \<open>path.resolve\<close> that drops a leading \<open>./\<close>, a registry that
  knows the formatter \<open>prose\<close> only, and no disable directive anywhere.
\<close>

definition applyReplacement :: "Replacement \<Rightarrow> string \<Rightarrow> string" where
  "applyReplacement r content =
     take (replStart r) content @ replText r @ drop (replEnd r) content"

definition sampleApplyFixes :: "string \<Rightarrow> Fix option list \<Rightarrow> string" where
  "sampleApplyFixes content fs =
     fold applyReplacement
       (rev (sort_key replEnd (concat (map (\<lambda>fx. case fx of None \<Rightarrow> [] | Some rs \<Rightarrow> rs) fs))))
       content"

definition sampleResolve :: "string \<Rightarrow> string" where
  "sampleResolve p = (if take 2 p = ''./'' then drop 2 p else p)"

definition sampleFormatter :: IFormatter where
  "sampleFormatter fs fxs = concat (map getFailure fs)"

definition sampleCollaborators :: Collaborators where
  "sampleCollaborators =
     \<lparr>disabled = (\<lambda>sourceFile f. False),
      replacementApplyFixes = sampleApplyFixes,
      pathResolve = sampleResolve,
      findFormatter = (\<lambda>name dir. if name = ''prose'' then Some sampleFormatter else None),
      getRelativePath = (\<lambda>dir. dir)\<rparr>"

text \<open>
  Three rules. \<open>noVarRule\<close> reports a text that starts with \<open>var\<close> and fixes it to
  \<open>const\<close>; \<open>noDoubleSemicolonRule\<close> reports a text that ends in two semicolons and fixes
  it by deleting the last one; \<open>throwingRule\<close> throws on every source file; and
  \<open>headerRule\<close> reports, for every source file, a failure in the file \<open>b.ts\<close> whose fix
  puts a comment at its start.
\<close>

definition noVarFailure :: "string \<Rightarrow> RuleFailure" where
  "noVarFailure name =
     \<lparr>getRuleName = ''no-var'', getFileName = name,
      getStartPosition = 0, getEndPosition = 3,
      getFailure = ''forbidden var'', getRuleSeverity = severity_error,
      getFix = Some [\<lparr>replStart = 0, replEnd = 3, replText = ''const''\<rparr>]\<rparr>"

definition noVarRule :: "RuleSeverity \<Rightarrow> IRule" where
  "noVarRule severity =
     \<lparr>ruleName = ''no-var'', ruleSeverity = severity,
      ruleApply = (\<lambda>sourceFile.
        if take 3 (sourceText sourceFile) = ''var''
        then Inr [noVarFailure (fileName sourceFile)]
        else Inr []),
      ruleApplyWithProgram = None\<rparr>"

definition doubleSemicolonFailure :: "string \<Rightarrow> nat \<Rightarrow> RuleFailure" where
  "doubleSemicolonFailure name n =
     \<lparr>getRuleName = ''no-double-semicolon'', getFileName = name,
      getStartPosition = n - 1, getEndPosition = n,
      getFailure = ''double semicolon'', getRuleSeverity = severity_error,
      getFix = Some [\<lparr>replStart = n - 1, replEnd = n, replText = []\<rparr>]\<rparr>"

definition noDoubleSemicolonRule :: "RuleSeverity \<Rightarrow> IRule" where
  "noDoubleSemicolonRule severity =
     \<lparr>ruleName = ''no-double-semicolon'', ruleSeverity = severity,
      ruleApply = (\<lambda>sourceFile.
        if endsWith (sourceText sourceFile) '';;''
        then Inr [doubleSemicolonFailure (fileName sourceFile)
                    (length (sourceText sourceFile))]
        else Inr []),
      ruleApplyWithProgram = None\<rparr>"

definition throwingRule :: IRule where
  "throwingRule =
     \<lparr>ruleName = ''throwing'', ruleSeverity = severity_error,
      ruleApply = (\<lambda>sourceFile. Inl (ThrownError (Inr ''boom''))),
      ruleApplyWithProgram = None\<rparr>"

definition headerFailure :: RuleFailure where
  "headerFailure =
     \<lparr>getRuleName = ''header'', getFileName = ''b.ts'',
      getStartPosition = 0, getEndPosition = 0,
      getFailure = ''missing header'', getRuleSeverity = severity_error,
      getFix = Some [\<lparr>replStart = 0, replEnd = 0, replText = ''// h ''\<rparr>]\<rparr>"

definition headerRule :: IRule where
  "headerRule =
     \<lparr>ruleName = ''header'', ruleSeverity = severity_warning,
      ruleApply = (\<lambda>sourceFile. Inr [headerFailure]),
      ruleApplyWithProgram = None\<rparr>"

text \<open>
  A rule that throws a value without a text, and a rule that names the file it lints in
  two ways: it reports a text that starts with \<open>var\<close> and ends in two semicolons, fixes
  \<open>var\<close> to \<open>let\<close> under the file's name, and deletes the last semicolon under the
  file's name with \<open>./\<close> before it.
\<close>

definition noTextRule :: IRule where
  "noTextRule =
     \<lparr>ruleName = ''no-text'', ruleSeverity = severity_error,
      ruleApply = (\<lambda>sourceFile.
        Inl (ThrownOther (Inl (TypeError ''Cannot convert object to primitive value'')))),
      ruleApplyWithProgram = None\<rparr>"

definition twoNamesFailures :: "SourceFile \<Rightarrow> RuleFailure list" where
  "twoNamesFailures sourceFile =
     (let n = length (sourceText sourceFile)
      in if take 3 (sourceText sourceFile) = ''var'' \<and> endsWith (sourceText sourceFile) '';;''
         then [\<lparr>getRuleName = ''two-names'', getFileName = fileName sourceFile,
                 getStartPosition = 0, getEndPosition = 3,
                 getFailure = ''forbidden var'', getRuleSeverity = severity_error,
                 getFix = Some [\<lparr>replStart = 0, replEnd = 3, replText = ''let''\<rparr>]\<rparr>,
               \<lparr>getRuleName = ''two-names'', getFileName = ''./'' @ fileName sourceFile,
                 getStartPosition = n - 1, getEndPosition = n,
                 getFailure = ''double semicolon'', getRuleSeverity = severity_error,
                 getFix = Some [\<lparr>replStart = n - 1, replEnd = n, replText = []\<rparr>]\<rparr>]
         else [])"

definition twoNamesRule :: IRule where
  "twoNamesRule =
     \<lparr>ruleName = ''two-names'', ruleSeverity = severity_error,
      ruleApply = (\<lambda>sourceFile. Inr (twoNamesFailures sourceFile)),
      ruleApplyWithProgram = None\<rparr>"

text \<open>A rule that reports its failure under a name that is not its own.\<close>

definition misnamedRule :: IRule where
  "misnamedRule =
     \<lparr>ruleName = ''misnamed'', ruleSeverity = severity_error,
      ruleApply = (\<lambda>sourceFile.
        Inr [\<lparr>getRuleName = ''other'', getFileName = fileName sourceFile,
              getStartPosition = 0, getEndPosition = 0,
              getFailure = ''misnamed'', getRuleSeverity = severity_error,
              getFix = None\<rparr>]),
      ruleApplyWithProgram = None\<rparr>"

definition sampleOptions :: "bool \<Rightarrow> string option \<Rightarrow> ILinterOptions" where
  "sampleOptions fixing formatterName =
     \<lparr>optFix = fixing, optFormatter = formatterName, optFormattersDirectory = None\<rparr>"

text \<open>A linter without a program, and one whose program knows \<open>a.ts\<close> as it is on the disk.\<close>

definition plainLinter :: "bool \<Rightarrow> Linter" where
  "plainLinter fixing = \<lparr>options = sampleOptions fixing None, program = None\<rparr>"

definition sampleProgram :: Program where
  "sampleProgram name =
     (if name = ''a.ts'' then Some \<lparr>fileName = ''a.ts'', sourceText = ''var x;;''\<rparr> else None)"

definition programLinter :: "bool \<Rightarrow> Linter" where
  "programLinter fixing = \<lparr>options = sampleOptions fixing None, program = Some sampleProgram\<rparr>"

definition sampleConfiguration :: "IRule list \<Rightarrow> IConfigurationFile" where
  "sampleConfiguration enabled = \<lparr>rules = enabled, jsRules = []\<rparr>"

definition sampleState :: state where
  "sampleState =
     \<lparr>failures = [], fixes = [],
      disk = (\<lambda>p. if p = ''a.ts'' then Some ''var x;;''
                   else if p = ''b.ts'' then Some ''let y;'' else None),
      writable = (\<lambda>p. True),
      writes = [], console = [], shownWarnings = {}\<rparr>"

section \<open>Properties\<close>

subsection \<open>Dispatch touches neither the session nor the disk\<close>

lemmas sample_defs =
  sampleCollaborators_def sampleApplyFixes_def applyReplacement_def sampleResolve_def
  sampleFormatter_def noVarFailure_def noVarRule_def doubleSemicolonFailure_def
  noDoubleSemicolonRule_def throwingRule_def headerRule_def
  headerFailure_def noTextRule_def twoNamesFailures_def twoNamesRule_def misnamedRule_def sampleOptions_def
  plainLinter_def programLinter_def sampleProgram_def sampleConfiguration_def sampleState_def

lemmas model_defs =
  lint_def getSourceFile_def utils_getSourceFile_def getEnabledRules_def isJsFileName_def
  endsWith_def lowerJsx_def getAllFailures_def applyRule_def applyRuleTry_def
  removeDisabledFailures_def applyAllFixes_def applyFixes_def fixesByFile_def
  createMultiMap_def readFileSync_def writeFileSync_def ruleSeverityMap_def hasFix_def
  setRuleSeverity_def showWarningOnce_def quoted_def getResult_def

lemma applyRule_fst_state:
  "fst (applyRule L rule sf st) = fst (applyRule L rule sf st0)"
  by (simp add: applyRule_def split: sum.splits thrown.splits)

lemma applyRule_frame:
  "failures (snd (applyRule L rule sf st)) = failures st"
  "fixes (snd (applyRule L rule sf st)) = fixes st"
  "disk (snd (applyRule L rule sf st)) = disk st"
  "writes (snd (applyRule L rule sf st)) = writes st"
  "writable (snd (applyRule L rule sf st)) = writable st"
  by (simp_all add: applyRule_def showWarningOnce_def split: sum.splits thrown.splits)

lemma flatMapApplyRule_frame:
  "failures (snd (flatMapApplyRule L rs sf st)) = failures st \<and>
   fixes (snd (flatMapApplyRule L rs sf st)) = fixes st \<and>
   disk (snd (flatMapApplyRule L rs sf st)) = disk st \<and>
   writes (snd (flatMapApplyRule L rs sf st)) = writes st \<and>
   writable (snd (flatMapApplyRule L rs sf st)) = writable st"
proof (induction rs arbitrary: st)
  case Nil
  show ?case by simp
next
  case (Cons r rs)
  obtain x st1 where a: "applyRule L r sf st = (x, st1)"
    by (cases "applyRule L r sf st")
  obtain y st2 where b: "flatMapApplyRule L rs sf st1 = (y, st2)"
    by (cases "flatMapApplyRule L rs sf st1")
  from Cons[of st1] b applyRule_frame[of L r sf st] a show ?case
    by (cases x; cases y) simp_all
qed

lemma getAllFailures_frame:
  "failures (snd (getAllFailures L C sf rs st)) = failures st \<and>
   fixes (snd (getAllFailures L C sf rs st)) = fixes st \<and>
   disk (snd (getAllFailures L C sf rs st)) = disk st \<and>
   writes (snd (getAllFailures L C sf rs st)) = writes st \<and>
   writable (snd (getAllFailures L C sf rs st)) = writable st"
proof -
  obtain x st1 where a: "flatMapApplyRule L rs sf st = (x, st1)"
    by (cases "flatMapApplyRule L rs sf st")
  from flatMapApplyRule_frame[of L rs sf st] a show ?thesis
    by (cases x) (simp_all add: getAllFailures_def)
qed

subsection \<open>Files without failures, configurations without rules\<close>

text \<open>
  C4. When the failures of a file are empty after the suppression filter, \<open>lint\<close> returns
  at once: it writes no file, the disk is as it was, and the failures and the fixes of
  the session are as they were. The linter \<open>L\<close> is any linter, so this holds with
  \<open>fix\<close> on and with \<open>fix\<close> off.
\<close>

theorem lint_empty_batch:
  assumes "getSourceFile L name source = Inr sf"
    and "fst (getAllFailures L C sf (getEnabledRules configuration (isJsFileName name)) st)
           = Inr []"
  shows "fst (lint L C name source configuration st) = Inr () \<and>
         writes (snd (lint L C name source configuration st)) = writes st \<and>
         disk (snd (lint L C name source configuration st)) = disk st \<and>
         failures (snd (lint L C name source configuration st)) = failures st \<and>
         fixes (snd (lint L C name source configuration st)) = fixes st"
  using assms
    getAllFailures_frame[of L C sf "getEnabledRules configuration (isJsFileName name)" st]
  by (cases "getAllFailures L C sf (getEnabledRules configuration (isJsFileName name)) st")
     (simp add: lint_def)

theorem lint_empty_batch_witness:
  "getSourceFile (plainLinter True) ''a.ts'' ''let x;'' = Inr (utils_getSourceFile ''a.ts'' ''let x;'') \<and>
   fst (getAllFailures (plainLinter True) sampleCollaborators (utils_getSourceFile ''a.ts'' ''let x;'')
          (getEnabledRules (sampleConfiguration [noVarRule severity_error]) (isJsFileName ''a.ts''))
          sampleState) = Inr [] \<and>
   fst (lint (plainLinter True) sampleCollaborators ''a.ts'' ''let x;''
          (sampleConfiguration [noVarRule severity_error]) sampleState) = Inr () \<and>
   writes (snd (lint (plainLinter True) sampleCollaborators ''a.ts'' ''let x;''
          (sampleConfiguration [noVarRule severity_error]) sampleState)) = []"
proof -
  have h1: "getSourceFile (plainLinter True) ''a.ts'' ''let x;''
              = Inr (utils_getSourceFile ''a.ts'' ''let x;'')"
    by (simp add: getSourceFile_def plainLinter_def)
  have h2: "fst (getAllFailures (plainLinter True) sampleCollaborators
                   (utils_getSourceFile ''a.ts'' ''let x;'')
                   (getEnabledRules (sampleConfiguration [noVarRule severity_error])
                      (isJsFileName ''a.ts''))
                   sampleState) = Inr []"
    by (simp add: sample_defs model_defs)
  have h3: "writes sampleState = []"
    by (simp add: sampleState_def)
  show ?thesis
    using h1 h2 h3 lint_empty_batch[OF h1 h2] by simp
qed

text \<open>
  C5. When the configuration enables no rule for the kind of file that is linted, \<open>lint\<close>
  leaves the whole state as it was, so no failure is added to the session and no file
  is written; and the failures of any source file under the empty rule list are empty.
  This holds also when \<open>lint\<close> throws because the program does not know the file.
\<close>

theorem lint_no_rules:
  assumes "getEnabledRules configuration (isJsFileName name) = []"
  shows "snd (lint L C name source configuration st) = st \<and>
         getAllFailures L C sf [] st = (Inr [], st)"
  using assms
  by (simp add: lint_def getAllFailures_def removeDisabledFailures_def split: sum.splits)

theorem lint_no_rules_witness:
  "getEnabledRules (sampleConfiguration []) (isJsFileName ''a.ts'') = [] \<and>
   snd (lint (programLinter True) sampleCollaborators ''a.ts'' ''var x;;''
          (sampleConfiguration []) sampleState) = sampleState \<and>
   getAllFailures (programLinter True) sampleCollaborators
          \<lparr>fileName = ''a.ts'', sourceText = ''var x;;''\<rparr> [] sampleState = (Inr [], sampleState)"
proof -
  have h: "getEnabledRules (sampleConfiguration []) (isJsFileName ''a.ts'') = []"
    by (simp add: getEnabledRules_def sampleConfiguration_def)
  show ?thesis
    using h lint_no_rules[OF h] by simp
qed

subsection \<open>A rule that throws\<close>

text \<open>
  When the value that a rule throws has a text, \<open>applyRule\<close> returns the empty list for
  the rule, and the failures of the file are those of the rule list without the rule.
\<close>

lemma applyRule_catches_text:
  assumes "applyRuleTry L rule sf = Inl (ThrownError (Inr text)) \<or>
           applyRuleTry L rule sf = Inl (ThrownOther (Inr text))"
  shows "fst (applyRule L rule sf st) = Inr []"
  using assms by (auto simp: applyRule_def)

lemma flatMapApplyRule_fst_state:
  "fst (flatMapApplyRule L rs sf st) = fst (flatMapApplyRule L rs sf st0)"
proof (induction rs arbitrary: st st0)
  case Nil
  show ?case by simp
next
  case (Cons r rs)
  obtain x st1 where a: "applyRule L r sf st = (x, st1)"
    by (cases "applyRule L r sf st")
  obtain x0 st1' where a0: "applyRule L r sf st0 = (x0, st1')"
    by (cases "applyRule L r sf st0")
  have same: "x0 = x"
    using applyRule_fst_state[of L r sf st st0] a a0 by simp
  obtain y st2 where b: "flatMapApplyRule L rs sf st1 = (y, st2)"
    by (cases "flatMapApplyRule L rs sf st1")
  obtain y0 st2' where b0: "flatMapApplyRule L rs sf st1' = (y0, st2')"
    by (cases "flatMapApplyRule L rs sf st1'")
  have "y0 = y"
    using Cons[of st1 st1'] b b0 by simp
  with same a a0 b b0 show ?case
    by (cases x; cases y) simp_all
qed

lemma flatMapApplyRule_without_caught:
  assumes "fst (applyRule L rule sf st0) = Inr []"
  shows "fst (flatMapApplyRule L (before @ rule # after) sf st) =
         fst (flatMapApplyRule L (before @ after) sf st)"
proof (induction before arbitrary: st)
  case Nil
  obtain x st1 where a: "applyRule L rule sf st = (x, st1)"
    by (cases "applyRule L rule sf st")
  have x: "x = Inr []"
    using assms applyRule_fst_state[of L rule sf st st0] a by simp
  obtain y st2 where b: "flatMapApplyRule L after sf st1 = (y, st2)"
    by (cases "flatMapApplyRule L after sf st1")
  have "fst (flatMapApplyRule L after sf st) = y"
    using flatMapApplyRule_fst_state[of L after sf st st1] b by simp
  with a x b show ?case
    by (cases y) simp_all
next
  case (Cons r before)
  obtain x st1 where a: "applyRule L r sf st = (x, st1)"
    by (cases "applyRule L r sf st")
  obtain y st2 where b: "flatMapApplyRule L (before @ rule # after) sf st1 = (y, st2)"
    by (cases "flatMapApplyRule L (before @ rule # after) sf st1")
  obtain z st3 where c: "flatMapApplyRule L (before @ after) sf st1 = (z, st3)"
    by (cases "flatMapApplyRule L (before @ after) sf st1")
  have "y = z"
    using Cons[of st1] b c by simp
  with a b c show ?case
    by (cases x; cases z) simp_all
qed

lemma getAllFailures_without_caught:
  assumes "applyRuleTry L rule sf = Inl (ThrownError (Inr text)) \<or>
           applyRuleTry L rule sf = Inl (ThrownOther (Inr text))"
  shows "fst (getAllFailures L C sf (before @ rule # after) st) =
         fst (getAllFailures L C sf (before @ after) st)"
proof -
  obtain y st2 where b: "flatMapApplyRule L (before @ rule # after) sf st = (y, st2)"
    by (cases "flatMapApplyRule L (before @ rule # after) sf st")
  obtain z st3 where c: "flatMapApplyRule L (before @ after) sf st = (z, st3)"
    by (cases "flatMapApplyRule L (before @ after) sf st")
  have "y = z"
    using flatMapApplyRule_without_caught[OF applyRule_catches_text[OF assms, of st], of before after st]
      b c by simp
  with b c show ?thesis
    by (cases z) (simp_all add: getAllFailures_def)
qed

text \<open>
  C8. The claim is that whatever a rule throws is caught and counts as no failure, and
  that the failures of the other rules are still collected and reported. The \<open>catch\<close>
  block of \<open>applyRule\<close> builds the text of its warning before it returns the empty
  list, and for a thrown value without a text (an object without a prototype, a Symbol)
  the template string throws a \<open>TypeError\<close>, which leaves \<open>applyRule\<close> and \<open>lint\<close>. Here
  \<open>a.ts\<close> is \<open>var x;;\<close> and the rules are \<open>no-var\<close> and a rule that throws such a value:
  \<open>lint\<close> throws and the session gets nothing, not even the failure of \<open>no-var\<close>. With
  a rule that throws an \<open>Error\<close> with a message in its place, the session gets the
  failure of \<open>no-var\<close>.
\<close>

theorem lint_rule_without_text_throws:
  "fst (applyRule (plainLinter False) noTextRule
          \<lparr>fileName = ''a.ts'', sourceText = ''var x;;''\<rparr> sampleState)
     = Inl (TypeError ''Cannot convert object to primitive value'') \<and>
   fst (lint (plainLinter False) sampleCollaborators ''a.ts'' ''var x;;''
          (sampleConfiguration [noVarRule severity_error, noTextRule]) sampleState)
     = Inl (TypeError ''Cannot convert object to primitive value'') \<and>
   failures (snd (lint (plainLinter False) sampleCollaborators ''a.ts'' ''var x;;''
          (sampleConfiguration [noVarRule severity_error, noTextRule]) sampleState))
     = [] \<and>
   map getRuleName
     (failures (snd (lint (plainLinter False) sampleCollaborators ''a.ts'' ''var x;;''
          (sampleConfiguration [noVarRule severity_error, throwingRule]) sampleState)))
     = [''no-var'']"
  by (simp add: sample_defs model_defs Let_def)

subsection \<open>The fix engine leaves the accumulated failures alone\<close>

lemma writeFileSync_Inr:
  assumes "writeFileSync C filePath data st = Inr st1"
  shows "st1 = st\<lparr>disk := (disk st)(pathResolve C filePath \<mapsto> data),
                  writes := writes st @ [(filePath, data)]\<rparr>"
    and "writable st (pathResolve C filePath)"
  using assms by (auto simp: writeFileSync_def split: if_splits)

lemma applyFixesForEach_frame:
  "failures (snd (applyFixesForEach C src m source st)) = failures st \<and>
   fixes (snd (applyFixesForEach C src m source st)) = fixes st \<and>
   writable (snd (applyFixesForEach C src m source st)) = writable st"
proof (induction m arbitrary: source st)
  case Nil
  show ?case by simp
next
  case (Cons g m)
  obtain p fxs where g: "g = (p, fxs)" by (cases g)
  have step: "failures (snd (applyFixesForEach C src m source' st1)) = failures st \<and>
              fixes (snd (applyFixesForEach C src m source' st1)) = fixes st \<and>
              writable (snd (applyFixesForEach C src m source' st1)) = writable st"
    if "writeFileSync C p data st = Inr st1" for data st1 source'
    using Cons[of source' st1] writeFileSync_Inr(1)[OF that] by simp
  show ?case
    using step
    by (auto simp: g Let_def readFileSync_def split: option.splits sum.splits)
qed

lemma applyFixes_frame:
  "failures (snd (applyFixes C src source fixable st)) = failures st \<and>
   fixes (snd (applyFixes C src source fixable st)) = fixes st \<and>
   writable (snd (applyFixes C src source fixable st)) = writable st"
  by (simp add: applyFixes_def applyFixesForEach_frame)

lemma applyAllFixesLoop_failures:
  "failures (snd (applyAllFixesLoop L C batch name rs sf source st)) = failures st"
proof (induction rs arbitrary: sf source st)
  case Nil
  show ?case by simp
next
  case (Cons rule rs)
  show ?case
  proof (cases "list_ex (\<lambda>f. hasFix f \<and> getRuleName f = ruleName rule) batch")
    case False
    then show ?thesis using Cons by simp
  next
    case True
    obtain x st1 where a: "applyRule L rule sf st = (x, st1)"
      by (cases "applyRule L rule sf st")
    have f1: "failures st1 = failures st"
      using applyRule_frame(1)[of L rule sf st] a by simp
    show ?thesis
    proof (cases x)
      case (Inl e)
      then show ?thesis using True a f1 by simp
    next
      case (Inr fresh)
      define fixable where "fixable = filter hasFix (removeDisabledFailures C sf fresh)"
      define st2 where "st2 = st1\<lparr>fixes := fixes st1 @ fixable\<rparr>"
      obtain r st3 where b: "applyFixes C name source fixable st2 = (r, st3)"
        by (cases "applyFixes C name source fixable st2")
      have f3: "failures st3 = failures st"
        using applyFixes_frame[of C name source fixable st2] b f1 by (simp add: st2_def)
      show ?thesis
        using True a Inr b f3 Cons
        by (simp add: Let_def fixable_def[symmetric] st2_def[symmetric] split: sum.splits)
    qed
  qed
qed

lemma applyAllFixes_failures:
  "failures (snd (applyAllFixes L C enabled batch sf name st)) = failures st"
proof -
  obtain r st1 where a: "applyAllFixesLoop L C batch name enabled sf (sourceText sf) st = (r, st1)"
    by (cases "applyAllFixesLoop L C batch name enabled sf (sourceText sf) st")
  have f1: "failures st1 = failures st"
    using applyAllFixesLoop_failures[of L C batch name enabled sf "sourceText sf" st] a by simp
  show ?thesis
  proof (cases r)
    case (Inl e)
    then show ?thesis using a f1 by (simp add: applyAllFixes_def)
  next
    case (Inr v)
    obtain sf1 src1 where v: "v = (sf1, src1)" by (cases v)
    have "failures (snd (getAllFailures L C sf1 enabled st1)) = failures st1"
      using getAllFailures_frame[of L C sf1 enabled st1] by simp
    then show ?thesis using a f1 Inr v by (simp add: applyAllFixes_def)
  qed
qed

lemma lintFileFailures_failures:
  "failures (snd (lintFileFailures L C name source configuration st)) = failures st"
proof (cases "getSourceFile L name source")
  case (Inl e)
  then show ?thesis by (simp add: lintFileFailures_def)
next
  case (Inr sf)
  define enabled where "enabled = getEnabledRules configuration (isJsFileName name)"
  obtain x st1 where a: "getAllFailures L C sf enabled st = (x, st1)"
    by (cases "getAllFailures L C sf enabled st")
  have f1: "failures st1 = failures st"
    using getAllFailures_frame[of L C sf enabled st] a by simp
  show ?thesis
  proof (cases x)
    case (Inl e)
    then show ?thesis
      using Inr a f1 by (simp add: lintFileFailures_def Let_def enabled_def[symmetric])
  next
    case batch: (Inr batch)
    show ?thesis
      using Inr a batch f1 applyAllFixes_failures[of L C enabled batch sf name st1]
      by (simp add: lintFileFailures_def Let_def enabled_def[symmetric])
  qed
qed

lemma lint_via_fileFailures:
  "lint L C name source configuration st =
     (case lintFileFailures L C name source configuration st of
        (Inl e, st2) \<Rightarrow> (Inl e, st2)
      | (Inr final, st2) \<Rightarrow>
          (case stampSeverities (ruleSeverityMap (getEnabledRules configuration (isJsFileName name)))
                  final of
             Inl e \<Rightarrow> (Inl e, st2)
           | Inr stamped \<Rightarrow> (Inr (), st2\<lparr>failures := failures st2 @ stamped\<rparr>)))"
proof (cases "getSourceFile L name source")
  case (Inl e)
  then show ?thesis by (simp add: lint_def lintFileFailures_def)
next
  case (Inr sf)
  define enabled where "enabled = getEnabledRules configuration (isJsFileName name)"
  obtain x st1 where a: "getAllFailures L C sf enabled st = (x, st1)"
    by (cases "getAllFailures L C sf enabled st")
  show ?thesis
    using Inr a
    by (cases x) (simp_all add: lint_def lintFileFailures_def Let_def enabled_def[symmetric])
qed

lemma stampSeverities_missing:
  "\<exists>f \<in> set final. m (getRuleName f) = None \<Longrightarrow>
   \<exists>n. n \<in> getRuleName ` set final \<and> m n = None \<and>
       stampSeverities m final = Inl (Error (''Severity for rule '' @ quoted n @ '' not found''))"
proof (induction final)
  case Nil
  then show ?case by simp
next
  case (Cons f final)
  show ?case
  proof (cases "m (getRuleName f)")
    case None
    then show ?thesis by auto
  next
    case (Some severity)
    with Cons.prems have "\<exists>g \<in> set final. m (getRuleName g) = None" by auto
    from Cons.IH[OF this] obtain n where
      "n \<in> getRuleName ` set final" "m n = None"
      "stampSeverities m final = Inl (Error (''Severity for rule '' @ quoted n @ '' not found''))"
      by blast
    with Some show ?thesis by auto
  qed
qed

lemma stampSeverities_found:
  "\<forall>f \<in> set final. m (getRuleName f) \<noteq> None \<Longrightarrow>
   stampSeverities m final =
     Inr (map (\<lambda>f. setRuleSeverity (the (m (getRuleName f))) f) final)"
  by (induction final) auto

subsection \<open>Severities\<close>

text \<open>
  C6. When the final batch of a file holds a failure whose rule name has no entry in the
  severity map of the enabled rules, \<open>lint\<close> throws the error "Severity for rule ... not
  found" for such a name, and the failures of the session are what they were before the
  call: nothing of the file is appended, and no severity is made up.
\<close>

theorem lint_severity_not_found:
  assumes "lintFileFailures L C name source configuration st = (Inr final, st2)"
    and "f \<in> set final"
    and "ruleSeverityMap (getEnabledRules configuration (isJsFileName name)) (getRuleName f) = None"
  shows "(\<exists>n. n \<in> getRuleName ` set final \<and>
              ruleSeverityMap (getEnabledRules configuration (isJsFileName name)) n = None \<and>
              fst (lint L C name source configuration st) =
                Inl (Error (''Severity for rule '' @ quoted n @ '' not found''))) \<and>
         failures (snd (lint L C name source configuration st)) = failures st"
proof -
  let ?m = "ruleSeverityMap (getEnabledRules configuration (isJsFileName name))"
  from assms(2,3) have "\<exists>g \<in> set final. ?m (getRuleName g) = None" by blast
  from stampSeverities_missing[OF this] obtain n where
    n: "n \<in> getRuleName ` set final" "?m n = None"
       "stampSeverities ?m final = Inl (Error (''Severity for rule '' @ quoted n @ '' not found''))"
    by blast
  have l: "lint L C name source configuration st =
             (Inl (Error (''Severity for rule '' @ quoted n @ '' not found'')), st2)"
    using assms(1) n(3) by (simp add: lint_via_fileFailures)
  have "failures st2 = failures st"
    using lintFileFailures_failures[of L C name source configuration st] assms(1) by simp
  with l n show ?thesis by auto
qed

theorem lint_severity_not_found_witness:
  "lintFileFailures (plainLinter False) sampleCollaborators ''a.ts'' ''x''
      (sampleConfiguration [misnamedRule]) sampleState
     = (Inr [\<lparr>getRuleName = ''other'', getFileName = ''a.ts'',
               getStartPosition = 0, getEndPosition = 0,
               getFailure = ''misnamed'', getRuleSeverity = severity_error,
               getFix = None\<rparr>], sampleState) \<and>
   ruleSeverityMap (getEnabledRules (sampleConfiguration [misnamedRule]) (isJsFileName ''a.ts''))
      ''other'' = None \<and>
   fst (lint (plainLinter False) sampleCollaborators ''a.ts'' ''x''
          (sampleConfiguration [misnamedRule]) sampleState)
     = Inl (Error (''Severity for rule '' @ quoted ''other'' @ '' not found'')) \<and>
   failures (snd (lint (plainLinter False) sampleCollaborators ''a.ts'' ''x''
          (sampleConfiguration [misnamedRule]) sampleState)) = []"
proof -
  let ?f = "\<lparr>getRuleName = ''other'', getFileName = ''a.ts'',
               getStartPosition = 0, getEndPosition = 0,
               getFailure = ''misnamed'', getRuleSeverity = severity_error,
               getFix = None\<rparr>"
  have h1: "lintFileFailures (plainLinter False) sampleCollaborators ''a.ts'' ''x''
              (sampleConfiguration [misnamedRule]) sampleState = (Inr [?f], sampleState)"
    by (simp add: lintFileFailures_def sample_defs model_defs)
  have h2: "?f \<in> set [?f]" by simp
  have h3: "ruleSeverityMap (getEnabledRules (sampleConfiguration [misnamedRule])
              (isJsFileName ''a.ts'')) (getRuleName ?f) = None"
    by (simp add: sample_defs model_defs)
  have h4: "failures sampleState = []" by (simp add: sampleState_def)
  show ?thesis
    using h1 h3 h4 lint_severity_not_found[OF h1 h2 h3] by auto
qed

subsection \<open>The summary\<close>

text \<open>
  C9. When the registry has no formatter of the requested name (\<open>prose\<close> when the
  options give none), \<open>getResult\<close> throws an error whose message names the formatter; it
  returns no result, so no output is formatted.
\<close>

theorem getResult_unknown_formatter:
  assumes "findFormatter C
             (case optFormatter (options L) of Some given \<Rightarrow> given | None \<Rightarrow> ''prose'')
             (getRelativePath C (optFormattersDirectory (options L))) = None"
  shows "getResult L C st =
           Inl (Error (''formatter '' @
                  quoted (case optFormatter (options L) of Some given \<Rightarrow> given | None \<Rightarrow> ''prose'') @
                  '' not found''))"
  using assms by (simp add: getResult_def)

theorem getResult_unknown_formatter_witness:
  "findFormatter sampleCollaborators ''fancy'' None = None \<and>
   getResult \<lparr>options = sampleOptions False (Some ''fancy''), program = None\<rparr>
       sampleCollaborators sampleState
     = Inl (Error (''formatter '' @ quoted ''fancy'' @ '' not found''))"
proof -
  have h: "findFormatter sampleCollaborators
             (case optFormatter (options \<lparr>options = sampleOptions False (Some ''fancy''),
                                          program = None\<rparr>) of
                Some given \<Rightarrow> given | None \<Rightarrow> ''prose'')
             (getRelativePath sampleCollaborators
                (optFormattersDirectory (options \<lparr>options = sampleOptions False (Some ''fancy''),
                                                  program = None\<rparr>))) = None"
    by (simp add: sampleCollaborators_def sampleOptions_def)
  show ?thesis
    using getResult_unknown_formatter[OF h, of sampleState]
    by (simp add: sampleCollaborators_def sampleOptions_def)
qed

lemma length_filter_rest:
  "length xs - length (filter P xs) = length (filter (\<lambda>x. \<not> P x) xs)"
  using sum_length_filter_compl[of P xs] by simp

text \<open>
  C7. In the summary, \<open>errorCount\<close> is the number of accumulated failures whose severity
  is error and \<open>warningCount\<close> is the number of the others. And when the enabled rules
  are one rule set to error and one set to warning, and the final batch of the file
  holds one failure of each, then after \<open>lint\<close> on a fresh session the summary has
  \<open>errorCount = 1\<close> and \<open>warningCount = 1\<close>.
\<close>

theorem getResult_counts:
  assumes "findFormatter C
             (case optFormatter (options L) of Some given \<Rightarrow> given | None \<Rightarrow> ''prose'')
             (getRelativePath C (optFormattersDirectory (options L))) = Some formatter"
  shows "(\<exists>r. getResult L C st = Inr r \<and>
              errorCount r = length (filter (\<lambda>f. getRuleSeverity f = severity_error) (failures st)) \<and>
              warningCount r = length (filter (\<lambda>f. getRuleSeverity f \<noteq> severity_error) (failures st))) \<and>
         ((getEnabledRules configuration (isJsFileName name) = [ruleX, ruleY] \<or>
           getEnabledRules configuration (isJsFileName name) = [ruleY, ruleX]) \<longrightarrow>
          ruleName ruleX \<noteq> ruleName ruleY \<longrightarrow>
          ruleSeverity ruleX = severity_error \<longrightarrow>
          ruleSeverity ruleY = severity_warning \<longrightarrow>
          failures st = [] \<longrightarrow>
          lintFileFailures L C name source configuration st = (Inr final, st2) \<longrightarrow>
          (final = [fx, fy] \<or> final = [fy, fx]) \<longrightarrow>
          getRuleName fx = ruleName ruleX \<longrightarrow>
          getRuleName fy = ruleName ruleY \<longrightarrow>
          (\<exists>r. getResult L C (snd (lint L C name source configuration st)) = Inr r \<and>
               errorCount r = 1 \<and> warningCount r = 1))"
proof (intro conjI impI)
  show "\<exists>r. getResult L C st = Inr r \<and>
              errorCount r = length (filter (\<lambda>f. getRuleSeverity f = severity_error) (failures st)) \<and>
              warningCount r = length (filter (\<lambda>f. getRuleSeverity f \<noteq> severity_error) (failures st))"
    using assms by (simp add: getResult_def Let_def length_filter_rest)
next
  let ?m = "ruleSeverityMap (getEnabledRules configuration (isJsFileName name))"
  assume en: "getEnabledRules configuration (isJsFileName name) = [ruleX, ruleY] \<or>
              getEnabledRules configuration (isJsFileName name) = [ruleY, ruleX]"
    and ne: "ruleName ruleX \<noteq> ruleName ruleY"
    and sx: "ruleSeverity ruleX = severity_error"
    and sy: "ruleSeverity ruleY = severity_warning"
    and fresh: "failures st = []"
    and batch: "lintFileFailures L C name source configuration st = (Inr final, st2)"
    and fin: "final = [fx, fy] \<or> final = [fy, fx]"
    and nx: "getRuleName fx = ruleName ruleX"
    and ny: "getRuleName fy = ruleName ruleY"
  have mx: "?m (ruleName ruleX) = Some severity_error"
    using en ne sx by (auto simp: ruleSeverityMap_def)
  have my: "?m (ruleName ruleY) = Some severity_warning"
    using en ne sy by (auto simp: ruleSeverityMap_def)
  have f2: "failures st2 = []"
    using lintFileFailures_failures[of L C name source configuration st] batch fresh by simp
  have stamped: "stampSeverities ?m final =
          Inr (map (\<lambda>f. setRuleSeverity (the (?m (getRuleName f))) f) final)"
    using fin mx my nx ny by (intro stampSeverities_found) auto
  have acc: "failures (snd (lint L C name source configuration st)) =
          map (\<lambda>f. setRuleSeverity (the (?m (getRuleName f))) f) final"
    using batch stamped f2 by (simp add: lint_via_fileFailures)
  show "\<exists>r. getResult L C (snd (lint L C name source configuration st)) = Inr r \<and>
               errorCount r = 1 \<and> warningCount r = 1"
    using assms acc fin mx my nx ny
    by (auto simp: getResult_def Let_def setRuleSeverity_def)
qed

theorem getResult_counts_witness:
  "(\<exists>r. getResult (plainLinter False) sampleCollaborators
          (snd (lint (plainLinter False) sampleCollaborators ''a.ts'' ''var x;;''
                  (sampleConfiguration [noVarRule severity_error, noDoubleSemicolonRule severity_warning])
                  sampleState)) = Inr r \<and>
        errorCount r = 1 \<and> warningCount r = 1)"
proof -
  let ?L = "plainLinter False"
  let ?cfg = "sampleConfiguration [noVarRule severity_error, noDoubleSemicolonRule severity_warning]"
  let ?fx = "\<lparr>getRuleName = ''no-var'', getFileName = ''a.ts'',
                   getStartPosition = 0, getEndPosition = 3,
                   getFailure = ''forbidden var'', getRuleSeverity = severity_error,
                   getFix = Some [\<lparr>replStart = 0, replEnd = 3, replText = ''const''\<rparr>]\<rparr>"
  let ?fy = "\<lparr>getRuleName = ''no-double-semicolon'', getFileName = ''a.ts'',
                      getStartPosition = 6, getEndPosition = 7,
                      getFailure = ''double semicolon'', getRuleSeverity = severity_error,
                      getFix = Some [\<lparr>replStart = 6, replEnd = 7, replText = []\<rparr>]\<rparr>"
  have h0: "findFormatter sampleCollaborators
             (case optFormatter (options ?L) of Some given \<Rightarrow> given | None \<Rightarrow> ''prose'')
             (getRelativePath sampleCollaborators (optFormattersDirectory (options ?L)))
              = Some sampleFormatter"
    by (simp add: sampleCollaborators_def plainLinter_def sampleOptions_def)
  have h1: "getEnabledRules ?cfg (isJsFileName ''a.ts'')
              = [noVarRule severity_error, noDoubleSemicolonRule severity_warning]"
    by (simp add: sample_defs model_defs)
  have h2: "ruleName (noVarRule severity_error) \<noteq> ruleName (noDoubleSemicolonRule severity_warning)"
    by (simp add: sample_defs)
  have h3: "ruleSeverity (noVarRule severity_error) = severity_error"
    by (simp add: sample_defs)
  have h4: "ruleSeverity (noDoubleSemicolonRule severity_warning) = severity_warning"
    by (simp add: sample_defs)
  have h5: "failures sampleState = []" by (simp add: sampleState_def)
  have h6: "lintFileFailures ?L sampleCollaborators ''a.ts'' ''var x;;'' ?cfg sampleState
              = (Inr [?fx, ?fy], sampleState)"
    by (simp add: lintFileFailures_def sample_defs model_defs Let_def)
  have h7: "getRuleName ?fx = ruleName (noVarRule severity_error)"
    by (simp add: sample_defs)
  have h8: "getRuleName ?fy = ruleName (noDoubleSemicolonRule severity_warning)"
    by (simp add: sample_defs)
  show ?thesis
    using getResult_counts[OF h0, of sampleState ?cfg "''a.ts''" "noVarRule severity_error"
            "noDoubleSemicolonRule severity_warning" "''var x;;''" "[?fx, ?fy]" sampleState ?fx ?fy]
          h1 h2 h3 h4 h5 h6 h7 h8
    by blast
qed

subsection \<open>The groups of applyFixes\<close>

lemma multiMapAdd_keys:
  "map fst (multiMapAdd k v m) = (if k \<in> fst ` set m then map fst m else map fst m @ [k])"
  by (induction m) (auto split: if_splits)

lemma multiMapAdd_distinct:
  "distinct (map fst m) \<Longrightarrow> distinct (map fst (multiMapAdd k v m))"
  by (simp add: multiMapAdd_keys)

lemma multiMapAdd_keyset:
  "fst ` set (multiMapAdd k v m) = insert k (fst ` set m)"
  using arg_cong[OF multiMapAdd_keys[of k v m], of set] by (auto split: if_splits)



lemma fixesByFile_foldl:
  "fixesByFile xs = foldl (\<lambda>m f. multiMapAdd (getFileName f) (getFix f) m) [] xs"
  by (simp add: fixesByFile_def createMultiMap_def)

lemma foldlAdd_keys:
  "fst ` set (foldl (\<lambda>m f. multiMapAdd (getFileName f) (getFix f) m) m xs) = fst ` set m \<union> getFileName ` set xs"
  by (induction xs arbitrary: m) (simp_all add: multiMapAdd_keyset)

lemma foldlAdd_distinct:
  "distinct (map fst m) \<Longrightarrow> distinct (map fst (foldl (\<lambda>m f. multiMapAdd (getFileName f) (getFix f) m) m xs))"
  by (induction xs arbitrary: m) (simp_all add: multiMapAdd_distinct)



lemma fixesByFile_keys: "fst ` set (fixesByFile xs) = getFileName ` set xs"
  using foldlAdd_keys[of "[]" xs] by (simp add: fixesByFile_foldl)

lemma fixesByFile_distinct: "distinct (map fst (fixesByFile xs))"
  using foldlAdd_distinct[of "[]" xs] by (simp add: fixesByFile_foldl)


lemma multiMapAdd_map_of:
  "distinct (map fst m) \<Longrightarrow>
   map_of (multiMapAdd k v m) =
     (map_of m)(k \<mapsto> (case map_of m k of None \<Rightarrow> [] | Some vs \<Rightarrow> vs) @ [v])"
proof (induction k v m rule: multiMapAdd.induct)
  case (1 k v)
  show ?case by simp
next
  case (2 k v k' vs m)
  show ?case
  proof (cases "k' = k")
    case True
    then show ?thesis by auto
  next
    case False
    with 2 show ?thesis by (auto simp: fun_upd_twist)
  qed
qed

lemma foldlAdd_map_of:
  "distinct (map fst m) \<Longrightarrow>
   map_of (foldl (\<lambda>m f. multiMapAdd (getFileName f) (getFix f) m) m xs) k =
     (if k \<in> fst ` set m \<union> getFileName ` set xs
      then Some ((case map_of m k of None \<Rightarrow> [] | Some vs \<Rightarrow> vs) @
                 map getFix (filter (\<lambda>g. getFileName g = k) xs))
      else None)"
proof (induction xs arbitrary: m)
  case Nil
  then show ?case
    by (auto simp: map_of_eq_None_iff split: option.splits)
next
  case (Cons x xs)
  let ?m = "multiMapAdd (getFileName x) (getFix x) m"
  have d: "distinct (map fst ?m)"
    using Cons.prems by (rule multiMapAdd_distinct)
  have keys: "fst ` set ?m = insert (getFileName x) (fst ` set m)"
    by (rule multiMapAdd_keyset)
  have look: "map_of ?m = (map_of m)(getFileName x \<mapsto>
                 (case map_of m (getFileName x) of None \<Rightarrow> [] | Some vs \<Rightarrow> vs) @ [getFix x])"
    using Cons.prems by (rule multiMapAdd_map_of)
  show ?case
    using Cons.IH[OF d, unfolded keys look]
    by (auto split: option.splits)
qed

lemma fixesByFile_group_exact:
  assumes "(k, vs) \<in> set (fixesByFile xs)"
  shows "vs = map getFix (filter (\<lambda>g. getFileName g = k) xs)"
proof -
  have "map_of (fixesByFile xs) k = Some vs"
    using assms fixesByFile_distinct[of xs] by (rule_tac map_of_is_SomeI)
  then show ?thesis
    using foldlAdd_map_of[of "[]" xs k]
    by (simp add: fixesByFile_foldl split: if_splits)
qed

lemma applyFixesForEach_append:
  "applyFixesForEach C src (pre @ post) source st =
     (case applyFixesForEach C src pre source st of
        (Inl e, st1) \<Rightarrow> (Inl e, st1)
      | (Inr source1, st1) \<Rightarrow> applyFixesForEach C src post source1 st1)"
proof (induction pre arbitrary: source st)
  case Nil
  show ?case by simp
next
  case (Cons g pre)
  obtain p fxs where g: "g = (p, fxs)" by (cases g)
  show ?case
    by (simp add: g Cons Let_def split: sum.splits)
qed

lemma applyFixesForEach_runs:
  assumes "\<forall>(p, fxs) \<in> set m. pathResolve C p \<noteq> pathResolve C src \<longrightarrow>
             disk st (pathResolve C p) \<noteq> None"
    and "\<forall>(p, fxs) \<in> set m. writable st (pathResolve C p)"
  shows "\<exists>source1 st1 ws.
           applyFixesForEach C src m source st = (Inr source1, st1) \<and>
           writes st1 = writes st @ ws \<and> map fst ws = map fst m \<and>
           filter (\<lambda>(p, d). pathResolve C p = pathResolve C src) ws =
             mergedTexts C source (filter (\<lambda>(p, fxs). pathResolve C p = pathResolve C src) m) \<and>
           (filter (\<lambda>(p, d). pathResolve C p = pathResolve C src) ws = [] \<longrightarrow>
              source1 = source \<and> disk st1 (pathResolve C src) = disk st (pathResolve C src)) \<and>
           (filter (\<lambda>(p, d). pathResolve C p = pathResolve C src) ws \<noteq> [] \<longrightarrow>
              snd (last (filter (\<lambda>(p, d). pathResolve C p = pathResolve C src) ws)) = source1 \<and>
              disk st1 (pathResolve C src) = Some source1)"
  using assms
proof (induction m arbitrary: source st)
  case Nil
  show ?case by simp
next
  case (Cons g m)
  obtain p fxs where g: "g = (p, fxs)" by (cases g)
  let ?own = "\<lambda>(p, d). pathResolve C p = pathResolve C src"
  let ?ownGroup = "\<lambda>(p, fxs). pathResolve C p = pathResolve C src"
  have wp: "writable st (pathResolve C p)"
    using Cons.prems(2) by (simp add: g)
  show ?case
  proof (cases "pathResolve C p = pathResolve C src")
    case True
    define s' where "s' = replacementApplyFixes C source fxs"
    define st' where "st' = st\<lparr>disk := (disk st)(pathResolve C p \<mapsto> s'),
                                writes := writes st @ [(p, s')]\<rparr>"
    have wr: "writeFileSync C p s' st = Inr st'"
      using wp by (simp add: writeFileSync_def st'_def)
    have pre1: "\<forall>(q, fxs) \<in> set m. pathResolve C q \<noteq> pathResolve C src \<longrightarrow>
                 disk st' (pathResolve C q) \<noteq> None"
      using Cons.prems(1) by (fastforce simp: st'_def g split: if_splits)
    have pre2: "\<forall>(q, fxs) \<in> set m. writable st' (pathResolve C q)"
      using Cons.prems(2) by (auto simp: st'_def)
    from Cons.IH[OF pre1 pre2, of s'] obtain source1 st1 ws where
      r: "applyFixesForEach C src m s' st' = (Inr source1, st1)"
         "writes st1 = writes st' @ ws" "map fst ws = map fst m"
         "filter ?own ws = mergedTexts C s' (filter ?ownGroup m)"
         "filter ?own ws = [] \<longrightarrow>
              source1 = s' \<and> disk st1 (pathResolve C src) = disk st' (pathResolve C src)"
         "filter ?own ws \<noteq> [] \<longrightarrow>
              snd (last (filter ?own ws)) = source1 \<and> disk st1 (pathResolve C src) = Some source1"
      by blast
    have step: "applyFixesForEach C src (g # m) source st = (Inr source1, st1)"
      using True r(1) wr by (simp add: g Let_def s'_def)
    have w: "writes st1 = writes st @ (p, s') # ws"
      using r(2) by (simp add: st'_def)
    have d: "disk st' (pathResolve C src) = Some s'"
      using True by (simp add: st'_def)
    have mt: "filter ?own ((p, s') # ws) = mergedTexts C source (filter ?ownGroup (g # m))"
      using True r(4) by (simp add: g s'_def)
    show ?thesis
      using step w r(3,5,6) d True mt
      by (intro exI[of _ source1] exI[of _ st1] exI[of _ "(p, s') # ws"]) (auto simp: g)
  next
    case False
    then obtain old where old: "disk st (pathResolve C p) = Some old"
      using Cons.prems(1) by (auto simp: g)
    define new where "new = replacementApplyFixes C old fxs"
    define st' where "st' = st\<lparr>disk := (disk st)(pathResolve C p \<mapsto> new),
                                writes := writes st @ [(p, new)]\<rparr>"
    have wr: "writeFileSync C p new st = Inr st'"
      using wp by (simp add: writeFileSync_def st'_def)
    have pre1: "\<forall>(q, fxs) \<in> set m. pathResolve C q \<noteq> pathResolve C src \<longrightarrow>
                 disk st' (pathResolve C q) \<noteq> None"
      using Cons.prems(1) by (fastforce simp: st'_def g split: if_splits)
    have pre2: "\<forall>(q, fxs) \<in> set m. writable st' (pathResolve C q)"
      using Cons.prems(2) by (auto simp: st'_def)
    from Cons.IH[OF pre1 pre2, of source] obtain source1 st1 ws where
      r: "applyFixesForEach C src m source st' = (Inr source1, st1)"
         "writes st1 = writes st' @ ws" "map fst ws = map fst m"
         "filter ?own ws = mergedTexts C source (filter ?ownGroup m)"
         "filter ?own ws = [] \<longrightarrow>
              source1 = source \<and> disk st1 (pathResolve C src) = disk st' (pathResolve C src)"
         "filter ?own ws \<noteq> [] \<longrightarrow>
              snd (last (filter ?own ws)) = source1 \<and> disk st1 (pathResolve C src) = Some source1"
      by blast
    have step: "applyFixesForEach C src (g # m) source st = (Inr source1, st1)"
      using False old r(1) wr by (simp add: g Let_def new_def readFileSync_def)
    have w: "writes st1 = writes st @ (p, new) # ws"
      using r(2) by (simp add: st'_def)
    have d: "disk st' (pathResolve C src) = disk st (pathResolve C src)"
      using False by (simp add: st'_def)
    have mt: "filter ?own ((p, new) # ws) = mergedTexts C source (filter ?ownGroup (g # m))"
      using False r(4) by (simp add: g)
    show ?thesis
      using step w r(3,5,6) d False mt
      by (intro exI[of _ source1] exI[of _ st1] exI[of _ "(p, new) # ws"]) (auto simp: g)
  qed
qed

subsection \<open>Fixes on other files\<close>


lemma applyAllFixesLoop_step:
  assumes "list_ex (\<lambda>g. hasFix g \<and> getRuleName g = ruleName rule) batch"
    and "applyRule L rule sf st = (Inr fresh, st1)"
  shows "applyAllFixesLoop L C batch name (rule # rs) sf source st =
           (case applyFixes C name source (filter hasFix (removeDisabledFailures C sf fresh))
                   (st1\<lparr>fixes := fixes st1 @
                                   filter hasFix (removeDisabledFailures C sf fresh)\<rparr>) of
              (Inl e, st3) \<Rightarrow> (Inl e, st3)
            | (Inr source1, st3) \<Rightarrow>
                (case getSourceFile L name source1 of
                   Inl e \<Rightarrow> (Inl e, st3)
                 | Inr sourceFile1 \<Rightarrow>
                     applyAllFixesLoop L C batch name rs sourceFile1 source1 st3))"
  using assms by (simp add: Let_def)




subsection \<open>Fixes on the linted file\<close>

lemma filter_eq_distinct:
  "distinct xs \<Longrightarrow> x \<in> set xs \<Longrightarrow> filter (\<lambda>y. y = x) xs = [x]"
  by (induction xs) (auto simp: filter_empty_conv)

text \<open>
  When the linted file cannot be written, \<open>applyFixes\<close> throws at the first of its groups
  and the state is as the groups before it left it.
\<close>

lemma applyFixes_linted_file_read_only:
  assumes "fixesByFile fixable = before @ (p, fileFixes) # rest"
    and "pathResolve C p = pathResolve C src"
    and "applyFixesForEach C src before source st = (Inr source1, st1)"
    and "\<not> writable st1 (pathResolve C p)"
  shows "applyFixes C src source fixable st = (Inl (EACCES p), st1)"
  using assms
  by (simp add: applyFixes_def applyFixesForEach_append writeFileSync_def Let_def)

text \<open>
  C10, as it is stated, says one overwrite of the linted file for each rule with fixable
  failures that touches it. A rule can name the linted file in more than one way, and
  \<open>applyFixes\<close> groups by the name, not by the resolved path. Here \<open>a.ts\<close> is \<open>var x;;\<close>
  and the one rule reports one failure under \<open>a.ts\<close> and one under \<open>./a.ts\<close>: the one
  processing of that rule overwrites the linted file twice.
\<close>

theorem lint_two_names_two_overwrites:
  "writes (snd (lint (plainLinter True) sampleCollaborators ''a.ts'' ''var x;;''
                  (sampleConfiguration [twoNamesRule]) sampleState))
     = [(''a.ts'', ''let x;;''), (''./a.ts'', ''let x;'')] \<and>
   map (\<lambda>(p, d). pathResolve sampleCollaborators p)
     (writes (snd (lint (plainLinter True) sampleCollaborators ''a.ts'' ''var x;;''
                     (sampleConfiguration [twoNamesRule]) sampleState)))
     = [pathResolve sampleCollaborators ''a.ts'', pathResolve sampleCollaborators ''a.ts''] \<and>
   length (filter (\<lambda>(p, d). pathResolve sampleCollaborators p = pathResolve sampleCollaborators ''a.ts'')
     (writes (snd (lint (plainLinter True) sampleCollaborators ''a.ts'' ''var x;;''
                     (sampleConfiguration [twoNamesRule]) sampleState)))) = 2"
  by (simp add: sample_defs model_defs Let_def)

text \<open>
  C10, amended. In a fix pass, take the turn of a rule that has a fixable failure in
  the batch from before the fixes, and let \<open>fixable\<close> be the fixable failures of its
  fresh run after the suppression filter. Suppose one of them is on the linted file,
  every other file they name can be read, and every file they name can be written.
  Then \<open>applyFixes\<close> returns a text \<open>source1\<close>, and the loop goes on to the next rule
  only after that, with \<open>source1\<close> and the state \<open>applyFixes\<close> left. By then the writes
  of this turn to the linted file are, in order, one for each distinct file name under
  which \<open>fixable\<close> names the linted file: the fixes of the failures with that name are
  merged into the working text and the merged text is written to that name at once.
  Their number is the number of those names, so it is one when the failures on the
  linted file carry one name. The last of them is \<open>source1\<close>, and the disk holds
  \<open>source1\<close> for the linted file.
\<close>

theorem applyAllFixesLoop_writes_linted_file:
  assumes processed: "list_ex (\<lambda>g. hasFix g \<and> getRuleName g = ruleName rule) batch"
    and ran: "applyRule L rule sf st = (Inr fresh, st1)"
    and fixableOf: "fixable = filter hasFix (removeDisabledFailures C sf fresh)"
    and member: "f \<in> set fixable"
    and own: "pathResolve C (getFileName f) = pathResolve C name"
    and readable: "\<forall>g \<in> set fixable. pathResolve C (getFileName g) \<noteq> pathResolve C name \<longrightarrow>
                       disk st (pathResolve C (getFileName g)) \<noteq> None"
    and canWrite: "\<forall>g \<in> set fixable. writable st (pathResolve C (getFileName g))"
  shows "\<exists>source1 st3 ws.
           applyFixes C name source fixable (st1\<lparr>fixes := fixes st1 @ fixable\<rparr>)
             = (Inr source1, st3) \<and>
           applyAllFixesLoop L C batch name (rule # rs) sf source st =
             (case getSourceFile L name source1 of
                Inl e \<Rightarrow> (Inl e, st3)
              | Inr sourceFile1 \<Rightarrow> applyAllFixesLoop L C batch name rs sourceFile1 source1 st3) \<and>
           writes st3 = writes st @ ws \<and>
           filter (\<lambda>(p, d). pathResolve C p = pathResolve C name) ws =
             mergedTexts C source
               (filter (\<lambda>(p, fxs). pathResolve C p = pathResolve C name) (fixesByFile fixable)) \<and>
           (\<forall>(p, fxs) \<in> set (fixesByFile fixable).
              fxs = map getFix (filter (\<lambda>g. getFileName g = p) fixable)) \<and>
           length (filter (\<lambda>(p, d). pathResolve C p = pathResolve C name) ws) =
             card {p \<in> getFileName ` set fixable. pathResolve C p = pathResolve C name} \<and>
           ((\<forall>g \<in> set fixable. pathResolve C (getFileName g) = pathResolve C name \<longrightarrow>
                                 getFileName g = getFileName f) \<longrightarrow>
              filter (\<lambda>(p, d). pathResolve C p = pathResolve C name) ws
                = [(getFileName f, source1)]) \<and>
           filter (\<lambda>(p, d). pathResolve C p = pathResolve C name) ws \<noteq> [] \<and>
           snd (last (filter (\<lambda>(p, d). pathResolve C p = pathResolve C name) ws)) = source1 \<and>
           disk st3 (pathResolve C name) = Some source1"
proof -
  let ?m = "fixesByFile fixable"
  let ?own = "\<lambda>(p, d). pathResolve C p = pathResolve C name"
  let ?ownGroup = "\<lambda>(p, fxs). pathResolve C p = pathResolve C name"
  let ?ownName = "\<lambda>p. pathResolve C p = pathResolve C name"
  define st2 where "st2 = st1\<lparr>fixes := fixes st1 @ fixable\<rparr>"
  have frame: "disk st2 = disk st" "writes st2 = writes st" "writable st2 = writable st"
    using applyRule_frame(3,4,5)[of L rule sf st] ran by (simp_all add: st2_def)
  have keys: "fst ` set ?m = getFileName ` set fixable"
    by (rule fixesByFile_keys)
  have pre1: "\<forall>(p, fxs) \<in> set ?m. pathResolve C p \<noteq> pathResolve C name \<longrightarrow>
                disk st2 (pathResolve C p) \<noteq> None"
  proof (clarify)
    fix p fxs
    assume "(p, fxs) \<in> set ?m" and "pathResolve C p \<noteq> pathResolve C name"
    then have "p \<in> getFileName ` set fixable"
      using keys by force
    then show "\<exists>y. disk st2 (pathResolve C p) = Some y"
      using readable \<open>pathResolve C p \<noteq> pathResolve C name\<close> frame(1) by auto
  qed
  have pre2: "\<forall>(p, fxs) \<in> set ?m. writable st2 (pathResolve C p)"
  proof (clarify)
    fix p fxs
    assume "(p, fxs) \<in> set ?m"
    then have "p \<in> getFileName ` set fixable"
      using keys by force
    then show "writable st2 (pathResolve C p)"
      using canWrite frame(3) by auto
  qed
  from applyFixesForEach_runs[OF pre1 pre2, of source] obtain source1 st3 ws where
    r: "applyFixesForEach C name ?m source st2 = (Inr source1, st3)"
       "writes st3 = writes st2 @ ws" "map fst ws = map fst ?m"
       "filter ?own ws = mergedTexts C source (filter ?ownGroup ?m)"
       "filter ?own ws \<noteq> [] \<longrightarrow>
          snd (last (filter ?own ws)) = source1 \<and> disk st3 (pathResolve C name) = Some source1"
    by blast
  have run: "applyFixes C name source fixable st2 = (Inr source1, st3)"
    using r(1) by (simp add: applyFixes_def)
  have loop: "applyAllFixesLoop L C batch name (rule # rs) sf source st =
             (case getSourceFile L name source1 of
                Inl e \<Rightarrow> (Inl e, st3)
              | Inr sourceFile1 \<Rightarrow> applyAllFixesLoop L C batch name rs sourceFile1 source1 st3)"
    using applyAllFixesLoop_step[OF processed ran, of C name rs source] run
    by (simp add: fixableOf st2_def)
  have exact: "\<forall>(p, fxs) \<in> set ?m. fxs = map getFix (filter (\<lambda>g. getFileName g = p) fixable)"
    using fixesByFile_group_exact by blast
  have kws: "fst ` set ws = getFileName ` set fixable"
    using keys arg_cong[OF r(3), of set] by simp
  then obtain d where d: "(getFileName f, d) \<in> set ws"
    using member by force
  then have ne: "filter ?own ws \<noteq> []"
    using own by (auto simp: filter_empty_conv)
  have lastText: "snd (last (filter ?own ws)) = source1"
    and onDisk: "disk st3 (pathResolve C name) = Some source1"
    using r(5) ne by auto
  have names: "map fst (filter ?own ws) = filter ?ownName (map fst ws)"
    by (induction ws) auto
  have dist: "distinct (map fst ws)"
    using r(3) fixesByFile_distinct[of fixable] by simp
  have count: "length (filter ?own ws) =
                 card {p \<in> getFileName ` set fixable. pathResolve C p = pathResolve C name}"
  proof -
    have "length (filter ?own ws) = length (filter ?ownName (map fst ws))"
      using arg_cong[OF names, of length] by simp
    also have "\<dots> = card (set (filter ?ownName (map fst ws)))"
      using distinct_card[OF distinct_filter[OF dist, of ?ownName]] by (rule sym)
    also have "set (filter ?ownName (map fst ws)) =
                 {p \<in> getFileName ` set fixable. pathResolve C p = pathResolve C name}"
      using kws by auto
    finally show ?thesis .
  qed
  have one: "filter ?own ws = [(getFileName f, source1)]"
    if uni: "\<forall>g \<in> set fixable. pathResolve C (getFileName g) = pathResolve C name \<longrightarrow>
                                 getFileName g = getFileName f"
  proof -
    have "filter ?ownName (map fst ws) = filter (\<lambda>q. q = getFileName f) (map fst ws)"
    proof (rule filter_cong[OF refl])
      fix q assume "q \<in> set (map fst ws)"
      then have "q \<in> getFileName ` set fixable" using kws by simp
      then show "(pathResolve C q = pathResolve C name) = (q = getFileName f)"
        using uni own by auto
    qed
    also have "\<dots> = [getFileName f]"
    proof (rule filter_eq_distinct)
      show "distinct (map fst ws)" by (rule dist)
      show "getFileName f \<in> set (map fst ws)"
        using d by force
    qed
    finally have "map fst (filter ?own ws) = [getFileName f]"
      using names by simp
    then obtain x where x: "filter ?own ws = [x]" "fst x = getFileName f"
      by auto
    then have "last (filter ?own ws) = x" by simp
    with lastText x show ?thesis by (cases x) auto
  qed
  have w: "writes st3 = writes st @ ws"
    using r(2) frame(2) by simp
  show ?thesis
    using run[unfolded st2_def] loop w r(4) exact count one ne lastText onDisk
    by (intro exI[of _ source1] exI[of _ st3] exI[of _ ws]) blast
qed

theorem applyAllFixesLoop_writes_linted_file_witness:
  "fst (applyFixes sampleCollaborators ''a.ts'' ''var x;;''
          (twoNamesFailures \<lparr>fileName = ''a.ts'', sourceText = ''var x;;''\<rparr>)
          (sampleState\<lparr>fixes := fixes sampleState @
             twoNamesFailures \<lparr>fileName = ''a.ts'', sourceText = ''var x;;''\<rparr>\<rparr>))
     = Inr ''let x;'' \<and>
   disk (snd (applyFixes sampleCollaborators ''a.ts'' ''var x;;''
          (twoNamesFailures \<lparr>fileName = ''a.ts'', sourceText = ''var x;;''\<rparr>)
          (sampleState\<lparr>fixes := fixes sampleState @
             twoNamesFailures \<lparr>fileName = ''a.ts'', sourceText = ''var x;;''\<rparr>\<rparr>))) ''a.ts''
     = Some ''let x;'' \<and>
   mergedTexts sampleCollaborators ''var x;;''
     (filter (\<lambda>(p, fxs). pathResolve sampleCollaborators p = pathResolve sampleCollaborators ''a.ts'')
        (fixesByFile (twoNamesFailures \<lparr>fileName = ''a.ts'', sourceText = ''var x;;''\<rparr>)))
     = [(''a.ts'', ''let x;;''), (''./a.ts'', ''let x;'')] \<and>
   card {p \<in> getFileName ` set (twoNamesFailures \<lparr>fileName = ''a.ts'', sourceText = ''var x;;''\<rparr>).
           pathResolve sampleCollaborators p = pathResolve sampleCollaborators ''a.ts''} = 2"
proof -
  let ?sf = "\<lparr>fileName = ''a.ts'', sourceText = ''var x;;''\<rparr>"
  let ?fresh = "twoNamesFailures ?sf"
  let ?st2 = "sampleState\<lparr>fixes := fixes sampleState @ ?fresh\<rparr>"
  let ?own = "\<lambda>(p, d). pathResolve sampleCollaborators p = pathResolve sampleCollaborators ''a.ts''"
  have h1: "list_ex (\<lambda>g. hasFix g \<and> getRuleName g = ruleName twoNamesRule) ?fresh"
    by (simp add: sample_defs hasFix_def endsWith_def Let_def)
  have h2: "applyRule (plainLinter True) twoNamesRule ?sf sampleState = (Inr ?fresh, sampleState)"
    by (simp add: plainLinter_def twoNamesRule_def applyRule_def applyRuleTry_def)
  have h3: "?fresh = filter hasFix (removeDisabledFailures sampleCollaborators ?sf ?fresh)"
    by (simp add: sample_defs hasFix_def endsWith_def removeDisabledFailures_def Let_def)
  have h4: "hd ?fresh \<in> set ?fresh"
    by (simp add: sample_defs endsWith_def Let_def)
  have h5: "pathResolve sampleCollaborators (getFileName (hd ?fresh))
              = pathResolve sampleCollaborators ''a.ts''"
    by (simp add: sample_defs endsWith_def Let_def)
  have h6: "\<forall>g \<in> set ?fresh.
              pathResolve sampleCollaborators (getFileName g) \<noteq> pathResolve sampleCollaborators ''a.ts'' \<longrightarrow>
              disk sampleState (pathResolve sampleCollaborators (getFileName g)) \<noteq> None"
    by (simp add: sample_defs endsWith_def Let_def)
  have h7: "\<forall>g \<in> set ?fresh. writable sampleState (pathResolve sampleCollaborators (getFileName g))"
    by (simp add: sample_defs)
  from applyAllFixesLoop_writes_linted_file[OF h1 h2 h3 h4 h5 h6 h7, of "''var x;;''" "[]"]
  obtain source1 st3 ws where
    r: "applyFixes sampleCollaborators ''a.ts'' ''var x;;'' ?fresh ?st2 = (Inr source1, st3)"
       "filter ?own ws = mergedTexts sampleCollaborators ''var x;;''
          (filter (\<lambda>(p, fxs). pathResolve sampleCollaborators p = pathResolve sampleCollaborators ''a.ts'')
             (fixesByFile ?fresh))"
       "length (filter ?own ws) =
          card {p \<in> getFileName ` set ?fresh.
                  pathResolve sampleCollaborators p = pathResolve sampleCollaborators ''a.ts''}"
       "snd (last (filter ?own ws)) = source1"
       "disk st3 (pathResolve sampleCollaborators ''a.ts'') = Some source1"
    by blast
  have texts: "mergedTexts sampleCollaborators ''var x;;''
          (filter (\<lambda>(p, fxs). pathResolve sampleCollaborators p = pathResolve sampleCollaborators ''a.ts'')
             (fixesByFile ?fresh))
         = [(''a.ts'', ''let x;;''), (''./a.ts'', ''let x;'')]"
    by (simp add: sample_defs fixesByFile_def createMultiMap_def endsWith_def Let_def)
  have s1: "source1 = ''let x;''"
    using r(2,4) texts by simp
  have c1: "fst (applyFixes sampleCollaborators ''a.ts'' ''var x;;'' ?fresh ?st2) = Inr ''let x;''"
    using r(1) s1 by simp
  have resolved: "pathResolve sampleCollaborators ''a.ts'' = ''a.ts''"
    by (simp add: sample_defs)
  have c2: "disk (snd (applyFixes sampleCollaborators ''a.ts'' ''var x;;'' ?fresh ?st2)) ''a.ts''
              = Some ''let x;''"
    using r(1,5) s1 resolved by simp
  have c4: "card {p \<in> getFileName ` set ?fresh.
                  pathResolve sampleCollaborators p = pathResolve sampleCollaborators ''a.ts''} = 2"
    using r(2,3) texts by simp
  show ?thesis
    using c1 c2 texts c4 by blast
qed

subsection \<open>Without a program the fix pass sees the merged text\<close>

text \<open>
  A rule without a fixable failure in the batch from before the fixes is passed over.
  Without a program, the source file that the loop carries is always the parse of the
  text merged so far, and the batch that \<open>applyAllFixes\<close> returns is \<open>getAllFailures\<close> on
  the parse of the final text.
\<close>

lemma applyAllFixesLoop_passes_over:
  assumes "\<not> list_ex (\<lambda>f. hasFix f \<and> getRuleName f = ruleName rule) batch"
  shows "applyAllFixesLoop L C batch name (rule # rs) sf source st =
           applyAllFixesLoop L C batch name rs sf source st"
  using assms by simp

lemma applyAllFixesLoop_plain_view:
  assumes "program L = None"
    and "applyAllFixesLoop L C batch name rs sf source st = (Inr (sf1, source1), st1)"
    and "sf = utils_getSourceFile name source"
  shows "sf1 = utils_getSourceFile name source1"
  using assms(2,3)
proof (induction rs arbitrary: sf source st)
  case Nil
  then show ?case by auto
next
  case (Cons rule rs)
  show ?case
  proof (cases "list_ex (\<lambda>f. hasFix f \<and> getRuleName f = ruleName rule) batch")
    case False
    then show ?thesis using Cons by simp
  next
    case True
    obtain x st1' where a: "applyRule L rule sf st = (x, st1')"
      by (cases "applyRule L rule sf st")
    show ?thesis
    proof (cases x)
      case (Inl e)
      then show ?thesis using True a Cons.prems(1) by simp
    next
      case fresh: (Inr fresh)
      define fixable where "fixable = filter hasFix (removeDisabledFailures C sf fresh)"
      define st2 where "st2 = st1'\<lparr>fixes := fixes st1' @ fixable\<rparr>"
      obtain r st3 where b: "applyFixes C name source fixable st2 = (r, st3)"
        by (cases "applyFixes C name source fixable st2")
      show ?thesis
      proof (cases r)
        case (Inl e)
        then show ?thesis
          using True a fresh b Cons.prems(1)
          by (simp add: Let_def fixable_def[symmetric] st2_def[symmetric])
      next
        case (Inr source2)
        have g: "getSourceFile L name source2 = Inr (utils_getSourceFile name source2)"
          using assms(1) by (simp add: getSourceFile_def)
        have "applyAllFixesLoop L C batch name rs (utils_getSourceFile name source2) source2 st3
                = (Inr (sf1, source1), st1)"
          using True a fresh b Inr g Cons.prems(1)
          by (simp add: Let_def fixable_def[symmetric] st2_def[symmetric])
        from Cons.IH[OF this] show ?thesis by simp
      qed
    qed
  qed
qed

lemma applyAllFixes_plain_recomputes:
  assumes "program L = None"
    and "fileName sf = name"
    and "applyAllFixes L C enabled batch sf name st = (Inr final, st2)"
  shows "\<exists>source1 st1.
           applyAllFixesLoop L C batch name enabled sf (sourceText sf) st
             = (Inr (utils_getSourceFile name source1, source1), st1) \<and>
           getAllFailures L C (utils_getSourceFile name source1) enabled st1 = (Inr final, st2)"
proof -
  obtain r st1 where a: "applyAllFixesLoop L C batch name enabled sf (sourceText sf) st = (r, st1)"
    by (cases "applyAllFixesLoop L C batch name enabled sf (sourceText sf) st")
  show ?thesis
  proof (cases r)
    case (Inl e)
    then show ?thesis using a assms(3) by (simp add: applyAllFixes_def)
  next
    case (Inr v)
    obtain sf1 source1 where v: "v = (sf1, source1)" by (cases v)
    have "sf = utils_getSourceFile name (sourceText sf)"
      using assms(2) by (simp add: utils_getSourceFile_def)
    from applyAllFixesLoop_plain_view[OF assms(1) a[unfolded Inr v] this]
    have s: "sf1 = utils_getSourceFile name source1" .
    show ?thesis
      using a Inr v s assms(3) by (simp add: applyAllFixes_def)
  qed
qed

subsection \<open>With a program the fix pass keeps the program's source file\<close>

text \<open>
  C1. The claim is that the batch which gets its severities and goes into the session
  is recomputed against the final text. With a program it is not: \<open>getSourceFile\<close>
  gives the program's source file whatever text it is passed. Here \<open>a.ts\<close> is
  \<open>var x;;\<close>, the one rule fixes \<open>var\<close> to \<open>const\<close>, and fixes are on: the disk ends with
  \<open>const x;;\<close>, on which the rule reports nothing, and yet the session gets the failure
  of the old text. Without a program the session gets none.
\<close>

theorem lint_program_reports_stale_batch:
  "disk (snd (lint (programLinter True) sampleCollaborators ''a.ts'' ''var x;;''
               (sampleConfiguration [noVarRule severity_error]) sampleState)) ''a.ts''
     = Some ''const x;;'' \<and>
   map getRuleName
     (failures (snd (lint (programLinter True) sampleCollaborators ''a.ts'' ''var x;;''
                       (sampleConfiguration [noVarRule severity_error]) sampleState)))
     = [''no-var''] \<and>
   fst (getAllFailures (programLinter True) sampleCollaborators
          \<lparr>fileName = ''a.ts'', sourceText = ''const x;;''\<rparr> [noVarRule severity_error] sampleState)
     = Inr [] \<and>
   failures (snd (lint (plainLinter True) sampleCollaborators ''a.ts'' ''var x;;''
                    (sampleConfiguration [noVarRule severity_error]) sampleState))
     = []"
  by (simp add: sample_defs model_defs Let_def)

text \<open>
  C2. The claim is that each rule of the fix loop runs on a source file derived from
  the text merged so far. With a program the loop keeps the program's source file:
  after the first rule has made the text \<open>const x;;\<close>, the second rule still sees
  \<open>var x;;\<close>, so its fix deletes offset 6 and the loop ends with \<open>const ;;\<close> and the old
  source file. Without a program the loop ends with \<open>const x;\<close> and the source file of
  that text.
\<close>

theorem applyAllFixesLoop_program_stale_view:
  "fst (getAllFailures (programLinter True) sampleCollaborators
          \<lparr>fileName = ''a.ts'', sourceText = ''var x;;''\<rparr>
          [noVarRule severity_error, noDoubleSemicolonRule severity_error] sampleState)
     = Inr [noVarFailure ''a.ts'', doubleSemicolonFailure ''a.ts'' 7] \<and>
   fst (applyAllFixesLoop (programLinter True) sampleCollaborators
          [noVarFailure ''a.ts'', doubleSemicolonFailure ''a.ts'' 7]
          ''a.ts'' [noVarRule severity_error, noDoubleSemicolonRule severity_error]
          \<lparr>fileName = ''a.ts'', sourceText = ''var x;;''\<rparr> ''var x;;'' sampleState)
     = Inr (\<lparr>fileName = ''a.ts'', sourceText = ''var x;;''\<rparr>, ''const ;;'') \<and>
   fst (getAllFailures (plainLinter True) sampleCollaborators
          \<lparr>fileName = ''a.ts'', sourceText = ''var x;;''\<rparr>
          [noVarRule severity_error, noDoubleSemicolonRule severity_error] sampleState)
     = Inr [noVarFailure ''a.ts'', doubleSemicolonFailure ''a.ts'' 7] \<and>
   fst (applyAllFixesLoop (plainLinter True) sampleCollaborators
          [noVarFailure ''a.ts'', doubleSemicolonFailure ''a.ts'' 7]
          ''a.ts'' [noVarRule severity_error, noDoubleSemicolonRule severity_error]
          \<lparr>fileName = ''a.ts'', sourceText = ''var x;;''\<rparr> ''var x;;'' sampleState)
     = Inr (\<lparr>fileName = ''a.ts'', sourceText = ''const x;''\<rparr>, ''const x;'')"
  by (simp add: sample_defs model_defs Let_def)

end
